theory Spec2Isabelle
  imports Complex_Main "HOL-Library.AList"
begin

section \<open>Python values\<close>

text \<open>
  The exceptions the modelled code can raise. \<open>DecodeError\<close> stands for the failures of
  \<^verbatim>\<open>data.decode("utf-8")\<close> and \<^verbatim>\<open>json.loads\<close>.
\<close>

datatype error = TypeError | KeyError | AttributeError | ValueError | IndexError | DecodeError

text \<open>
  The values a configuration field can hold and a JSON document can carry: \<^verbatim>\<open>None\<close>,
  booleans, integers, floats, strings, lists, and dictionaries with string keys. A
  dictionary keeps its insertion order, so it is an association list. A string is a
  \<^typ>\<open>char list\<close>, a character outside ASCII being its UTF-8 bytes; a float is the
  rational number it denotes (the model has no NaN and no infinity). The dataclasses of the source annotate their fields with types, but Python
  does not enforce the annotations, so a field holds any such value.
\<close>

datatype json =
    JNull
  | JBool bool
  | JInt int
  | JFloat rat
  | JStr string
  | JList "json list"
  | JDict "(string \<times> json) list"

type_synonym dict = "(string \<times> json) list"

text \<open>Python's truth value of an object, as \<^verbatim>\<open>if x\<close>, \<^verbatim>\<open>x or y\<close> and \<^verbatim>\<open>bool(x)\<close> take it.\<close>

fun truthy :: "json \<Rightarrow> bool" where
  "truthy JNull = False"
| "truthy (JBool b) = b"
| "truthy (JInt n) = (n \<noteq> 0)"
| "truthy (JFloat q) = (q \<noteq> 0)"
| "truthy (JStr s) = (s \<noteq> [])"
| "truthy (JList xs) = (xs \<noteq> [])"
| "truthy (JDict kvs) = (kvs \<noteq> [])"

text \<open>Sequencing of computations that may raise.\<close>

definition bind :: "error + 'a \<Rightarrow> ('a \<Rightarrow> error + 'b) \<Rightarrow> error + 'b" where
  "bind m f = (case m of Inl e \<Rightarrow> Inl e | Inr x \<Rightarrow> f x)"

section \<open>Template tokenizer\<close>

text \<open>
  \<^verbatim>\<open>template.startswith(prefix, i)\<close>: the prefix occurs in the template at index \<open>i\<close>.
  An index beyond the end of the template gives \<^verbatim>\<open>False\<close>, also for the empty prefix.
\<close>

definition startswith :: "string \<Rightarrow> string \<Rightarrow> nat \<Rightarrow> bool" where
  "startswith template pre i = (i \<le> length template \<and> take (length pre) (drop i template) = pre)"

definition PAGE :: string where
  "PAGE = ''{PAGE}''"

definition NUMPAGES :: string where
  "NUMPAGES = ''{NUMPAGES}''"

text \<open>\<^verbatim>\<open>template[i:j]\<close>\<close>

definition slice :: "string \<Rightarrow> nat \<Rightarrow> nat \<Rightarrow> string" where
  "slice template i j = take (j - i) (drop i template)"

text \<open>
  The inner loop of \<^verbatim>\<open>_split_template\<close>:
  \<^verbatim>\<open>while j < len(template) and not template.startswith("{PAGE}", j)
        and not template.startswith("{NUMPAGES}", j): j += 1\<close>
\<close>

function scan_literal :: "string \<Rightarrow> nat \<Rightarrow> nat" where
  "scan_literal template j =
     (if j < length template \<and> \<not> startswith template PAGE j \<and> \<not> startswith template NUMPAGES j
      then scan_literal template (j + 1) else j)"
  by pat_completeness auto
termination
  by (relation "measure (\<lambda>(template, j). length template - j)") auto

declare scan_literal.simps [simp del]

lemma scan_literal_ge: "j \<le> scan_literal template j"
proof (induction template j rule: scan_literal.induct)
  case (1 template j)
  show ?case
  proof (cases "j < length template \<and> \<not> startswith template PAGE j \<and> \<not> startswith template NUMPAGES j")
    case True
    with 1 have "j + 1 \<le> scan_literal template (j + 1)" by simp
    moreover from True have "scan_literal template j = scan_literal template (j + 1)"
      by (subst scan_literal.simps) simp
    ultimately show ?thesis by simp
  next
    case False
    then have "scan_literal template j = j" by (subst scan_literal.simps) auto
    then show ?thesis by simp
  qed
qed

lemma scan_literal_gt:
  assumes "j < length template" "\<not> startswith template PAGE j" "\<not> startswith template NUMPAGES j"
  shows "j < scan_literal template j"
proof -
  from assms have "scan_literal template j = scan_literal template (j + 1)"
    by (subst scan_literal.simps) simp
  moreover have "j + 1 \<le> scan_literal template (j + 1)" by (rule scan_literal_ge)
  ultimately show ?thesis by simp
qed

lemma scan_literal_le: "j \<le> length template \<Longrightarrow> scan_literal template j \<le> length template"
proof (induction template j rule: scan_literal.induct)
  case (1 template j)
  show ?case
  proof (cases "j < length template \<and> \<not> startswith template PAGE j \<and> \<not> startswith template NUMPAGES j")
    case True
    with 1 have "scan_literal template (j + 1) \<le> length template" by simp
    moreover from True have "scan_literal template j = scan_literal template (j + 1)"
      by (subst scan_literal.simps) simp
    ultimately show ?thesis by simp
  next
    case False
    then have "scan_literal template j = j" by (subst scan_literal.simps) auto
    with 1 show ?thesis by simp
  qed
qed

text \<open>
  The outer loop of \<^verbatim>\<open>_split_template\<close>, with the loop variables \<open>i\<close> and \<open>tokens\<close>
  as arguments.
\<close>

function split_loop :: "string \<Rightarrow> nat \<Rightarrow> string list \<Rightarrow> string list" where
  "split_loop template i tokens =
     (if i < length template then
        (if startswith template PAGE i then
           split_loop template (i + length PAGE) (tokens @ [PAGE])
         else if startswith template NUMPAGES i then
           split_loop template (i + length NUMPAGES) (tokens @ [NUMPAGES])
         else
           (let j = scan_literal template i
            in split_loop template j (tokens @ [slice template i j])))
      else tokens)"
  by pat_completeness auto
termination
proof (relation "measure (\<lambda>(template, i, tokens). length template - i)")
  show "wf (measure (\<lambda>(template, i, tokens). length template - i))" by simp
next
  fix template :: string and i :: nat and tokens :: "string list"
  assume "i < length template" "startswith template PAGE i"
  then show "((template, i + length PAGE, tokens @ [PAGE]), (template, i, tokens))
      \<in> measure (\<lambda>(template, i, tokens). length template - i)"
    by (simp add: PAGE_def)
next
  fix template :: string and i :: nat and tokens :: "string list"
  assume "i < length template" "startswith template NUMPAGES i"
  then show "((template, i + length NUMPAGES, tokens @ [NUMPAGES]), (template, i, tokens))
      \<in> measure (\<lambda>(template, i, tokens). length template - i)"
    by (simp add: NUMPAGES_def)
next
  fix template :: string and i :: nat and tokens :: "string list" and j :: nat
  assume a: "i < length template" "\<not> startswith template PAGE i"
    "\<not> startswith template NUMPAGES i" "j = scan_literal template i"
  then have "i < j" using scan_literal_gt by simp
  with a show "((template, j, tokens @ [slice template i j]), (template, i, tokens))
      \<in> measure (\<lambda>(template, i, tokens). length template - i)"
    by simp
qed

declare split_loop.simps [simp del]

definition split_template :: "string \<Rightarrow> string list" where
  "split_template template = split_loop template 0 []"

text \<open>Python's \<^verbatim>\<open>needle in s\<close> on strings: the needle occurs at some index.\<close>

fun contains :: "string \<Rightarrow> string \<Rightarrow> bool" where
  "contains [] needle = (needle = [])"
| "contains (c # cs) needle = (startswith (c # cs) needle 0 \<or> contains cs needle)"

text \<open>
  What a token of the tokenizer's result may be: one of the two placeholders, or a
  non-empty literal in which no placeholder occurs.
\<close>

definition token_ok :: "string \<Rightarrow> bool" where
  "token_ok tok = (tok = PAGE \<or> tok = NUMPAGES \<or>
     (tok \<noteq> [] \<and> \<not> contains tok PAGE \<and> \<not> contains tok NUMPAGES))"

section \<open>Configuration model\<close>

record StyleConfig =
  font_name :: json
  font_size_pt :: json
  bold :: json
  italic :: json
  color_hex :: json
  line_spacing :: json
  space_before_pt :: json
  space_after_pt :: json
  first_line_indent_cm :: json
  alignment :: json
  keep_with_next :: json
  page_break_before :: json

text \<open>\<^verbatim>\<open>StyleConfig()\<close>: the defaults of the dataclass.\<close>

definition StyleConfig_default :: StyleConfig where
  "StyleConfig_default = \<lparr>
     font_name = JStr ''Times New Roman'',
     font_size_pt = JFloat 13,
     bold = JBool False,
     italic = JBool False,
     color_hex = JNull,
     line_spacing = JFloat (3 / 2),
     space_before_pt = JFloat 0,
     space_after_pt = JFloat 6,
     first_line_indent_cm = JFloat 1,
     alignment = JStr ''JUSTIFY'',
     keep_with_next = JBool False,
     page_break_before = JBool False \<rparr>"

definition StyleConfig_fields :: "string list" where
  "StyleConfig_fields = [''font_name'', ''font_size_pt'', ''bold'', ''italic'', ''color_hex'',
     ''line_spacing'', ''space_before_pt'', ''space_after_pt'', ''first_line_indent_cm'',
     ''alignment'', ''keep_with_next'', ''page_break_before'']"

text \<open>\<^verbatim>\<open>asdict\<close> on a \<^verbatim>\<open>StyleConfig\<close>: the fields in declaration order.\<close>

definition style_to_dict :: "StyleConfig \<Rightarrow> dict" where
  "style_to_dict s = [
     (''font_name'', font_name s),
     (''font_size_pt'', font_size_pt s),
     (''bold'', bold s),
     (''italic'', italic s),
     (''color_hex'', color_hex s),
     (''line_spacing'', line_spacing s),
     (''space_before_pt'', space_before_pt s),
     (''space_after_pt'', space_after_pt s),
     (''first_line_indent_cm'', first_line_indent_cm s),
     (''alignment'', alignment s),
     (''keep_with_next'', keep_with_next s),
     (''page_break_before'', page_break_before s)]"

text \<open>
  A keyword argument of a dataclass constructor called as \<^verbatim>\<open>C(**x)\<close>: the value under
  the field's name, or the field's default when the name is absent.
\<close>

definition kwarg :: "dict \<Rightarrow> string \<Rightarrow> json \<Rightarrow> json" where
  "kwarg kw k d = (case map_of kw k of Some v \<Rightarrow> v | None \<Rightarrow> d)"

text \<open>
  \<^verbatim>\<open>C(**x)\<close> raises \<^verbatim>\<open>TypeError\<close> when \<open>x\<close> is not a mapping and when \<open>x\<close> has a key
  that is not a field of \<open>C\<close>.
\<close>

definition unexpected_keyword :: "string list \<Rightarrow> dict \<Rightarrow> bool" where
  "unexpected_keyword names kw = (\<exists>k \<in> set (map fst kw). k \<notin> set names)"

text \<open>\<^verbatim>\<open>def build_style(x): return StyleConfig(**x)\<close>\<close>

definition build_style :: "json \<Rightarrow> error + StyleConfig" where
  "build_style x =
     (case x of
        JDict kw \<Rightarrow>
          if unexpected_keyword StyleConfig_fields kw then Inl TypeError
          else Inr \<lparr>
            font_name = kwarg kw ''font_name'' (font_name StyleConfig_default),
            font_size_pt = kwarg kw ''font_size_pt'' (font_size_pt StyleConfig_default),
            bold = kwarg kw ''bold'' (bold StyleConfig_default),
            italic = kwarg kw ''italic'' (italic StyleConfig_default),
            color_hex = kwarg kw ''color_hex'' (color_hex StyleConfig_default),
            line_spacing = kwarg kw ''line_spacing'' (line_spacing StyleConfig_default),
            space_before_pt = kwarg kw ''space_before_pt'' (space_before_pt StyleConfig_default),
            space_after_pt = kwarg kw ''space_after_pt'' (space_after_pt StyleConfig_default),
            first_line_indent_cm =
              kwarg kw ''first_line_indent_cm'' (first_line_indent_cm StyleConfig_default),
            alignment = kwarg kw ''alignment'' (alignment StyleConfig_default),
            keep_with_next = kwarg kw ''keep_with_next'' (keep_with_next StyleConfig_default),
            page_break_before =
              kwarg kw ''page_break_before'' (page_break_before StyleConfig_default) \<rparr>
      | _ \<Rightarrow> Inl TypeError)"

record PageSetupConfig =
  paper :: json
  margin_left_cm :: json
  margin_right_cm :: json
  margin_top_cm :: json
  margin_bottom_cm :: json
  header_distance_cm :: json
  footer_distance_cm :: json
  different_first_page :: json

definition PageSetupConfig_default :: PageSetupConfig where
  "PageSetupConfig_default = \<lparr>
     paper = JStr ''A4_PORTRAIT'',
     margin_left_cm = JFloat (7 / 2),
     margin_right_cm = JFloat 2,
     margin_top_cm = JFloat 2,
     margin_bottom_cm = JFloat 2,
     header_distance_cm = JFloat (5 / 4),
     footer_distance_cm = JFloat (5 / 4),
     different_first_page = JBool False \<rparr>"

definition PageSetupConfig_fields :: "string list" where
  "PageSetupConfig_fields = [''paper'', ''margin_left_cm'', ''margin_right_cm'', ''margin_top_cm'',
     ''margin_bottom_cm'', ''header_distance_cm'', ''footer_distance_cm'', ''different_first_page'']"

definition pagesetup_to_dict :: "PageSetupConfig \<Rightarrow> dict" where
  "pagesetup_to_dict s = [
     (''paper'', paper s),
     (''margin_left_cm'', margin_left_cm s),
     (''margin_right_cm'', margin_right_cm s),
     (''margin_top_cm'', margin_top_cm s),
     (''margin_bottom_cm'', margin_bottom_cm s),
     (''header_distance_cm'', header_distance_cm s),
     (''footer_distance_cm'', footer_distance_cm s),
     (''different_first_page'', different_first_page s)]"

text \<open>\<^verbatim>\<open>def build_pagesetup(x): return PageSetupConfig(**x)\<close>\<close>

definition build_pagesetup :: "json \<Rightarrow> error + PageSetupConfig" where
  "build_pagesetup x =
     (case x of
        JDict kw \<Rightarrow>
          if unexpected_keyword PageSetupConfig_fields kw then Inl TypeError
          else Inr \<lparr>
            paper = kwarg kw ''paper'' (paper PageSetupConfig_default),
            margin_left_cm = kwarg kw ''margin_left_cm'' (margin_left_cm PageSetupConfig_default),
            margin_right_cm = kwarg kw ''margin_right_cm'' (margin_right_cm PageSetupConfig_default),
            margin_top_cm = kwarg kw ''margin_top_cm'' (margin_top_cm PageSetupConfig_default),
            margin_bottom_cm =
              kwarg kw ''margin_bottom_cm'' (margin_bottom_cm PageSetupConfig_default),
            header_distance_cm =
              kwarg kw ''header_distance_cm'' (header_distance_cm PageSetupConfig_default),
            footer_distance_cm =
              kwarg kw ''footer_distance_cm'' (footer_distance_cm PageSetupConfig_default),
            different_first_page =
              kwarg kw ''different_first_page'' (different_first_page PageSetupConfig_default) \<rparr>
      | _ \<Rightarrow> Inl TypeError)"

record TocConfig =
  insert_toc :: json
  heading_levels :: json
  title :: json
  title_bold :: json
  title_font_size_pt :: json
  title_alignment :: json

text \<open>
  The default title is \<^verbatim>\<open>"M\<close>U+1EE4\<^verbatim>\<open>C L\<close>U+1EE4\<^verbatim>\<open>C"\<close>; the letter U+1EE4 is the three
  bytes E1 BB A4 in UTF-8.
\<close>

definition TocConfig_default :: TocConfig where
  "TocConfig_default = \<lparr>
     insert_toc = JBool False,
     heading_levels = JStr ''1-3'',
     title = JStr [CHR ''M'', CHR 0xE1, CHR 0xBB, CHR 0xA4, CHR ''C'', CHR '' '',
                   CHR ''L'', CHR 0xE1, CHR 0xBB, CHR 0xA4, CHR ''C''],
     title_bold = JBool True,
     title_font_size_pt = JFloat 14,
     title_alignment = JStr ''CENTER'' \<rparr>"

definition TocConfig_fields :: "string list" where
  "TocConfig_fields = [''insert_toc'', ''heading_levels'', ''title'', ''title_bold'',
     ''title_font_size_pt'', ''title_alignment'']"

definition toc_to_dict :: "TocConfig \<Rightarrow> dict" where
  "toc_to_dict s = [
     (''insert_toc'', insert_toc s),
     (''heading_levels'', heading_levels s),
     (''title'', title s),
     (''title_bold'', title_bold s),
     (''title_font_size_pt'', title_font_size_pt s),
     (''title_alignment'', title_alignment s)]"

text \<open>\<^verbatim>\<open>def build_toc(x): return TocConfig(**x)\<close>\<close>

definition build_toc :: "json \<Rightarrow> error + TocConfig" where
  "build_toc x =
     (case x of
        JDict kw \<Rightarrow>
          if unexpected_keyword TocConfig_fields kw then Inl TypeError
          else Inr \<lparr>
            insert_toc = kwarg kw ''insert_toc'' (insert_toc TocConfig_default),
            heading_levels = kwarg kw ''heading_levels'' (heading_levels TocConfig_default),
            title = kwarg kw ''title'' (title TocConfig_default),
            title_bold = kwarg kw ''title_bold'' (title_bold TocConfig_default),
            title_font_size_pt =
              kwarg kw ''title_font_size_pt'' (title_font_size_pt TocConfig_default),
            title_alignment = kwarg kw ''title_alignment'' (title_alignment TocConfig_default) \<rparr>
      | _ \<Rightarrow> Inl TypeError)"

record ProcessingConfig =
  force_run_font_everywhere :: json
  force_paragraph_format_everywhere :: json
  include_tables :: json

definition ProcessingConfig_default :: ProcessingConfig where
  "ProcessingConfig_default = \<lparr>
     force_run_font_everywhere = JBool True,
     force_paragraph_format_everywhere = JBool True,
     include_tables = JBool True \<rparr>"

definition ProcessingConfig_fields :: "string list" where
  "ProcessingConfig_fields = [''force_run_font_everywhere'',
     ''force_paragraph_format_everywhere'', ''include_tables'']"

definition processing_to_dict :: "ProcessingConfig \<Rightarrow> dict" where
  "processing_to_dict s = [
     (''force_run_font_everywhere'', force_run_font_everywhere s),
     (''force_paragraph_format_everywhere'', force_paragraph_format_everywhere s),
     (''include_tables'', include_tables s)]"

text \<open>\<^verbatim>\<open>def build_processing(x): return ProcessingConfig(**x)\<close>\<close>

definition build_processing :: "json \<Rightarrow> error + ProcessingConfig" where
  "build_processing x =
     (case x of
        JDict kw \<Rightarrow>
          if unexpected_keyword ProcessingConfig_fields kw then Inl TypeError
          else Inr \<lparr>
            force_run_font_everywhere =
              kwarg kw ''force_run_font_everywhere''
                (force_run_font_everywhere ProcessingConfig_default),
            force_paragraph_format_everywhere =
              kwarg kw ''force_paragraph_format_everywhere''
                (force_paragraph_format_everywhere ProcessingConfig_default),
            include_tables = kwarg kw ''include_tables'' (include_tables ProcessingConfig_default) \<rparr>
      | _ \<Rightarrow> Inl TypeError)"

record PageNumberConfig =
  enabled :: json
  position :: json
  template :: json
  start_at :: json
  restart_each_section :: json
  number_format :: json
  font_name :: json
  font_size_pt :: json

definition PageNumberConfig_default :: PageNumberConfig where
  "PageNumberConfig_default = \<lparr>
     enabled = JBool True,
     position = JStr ''FOOTER_CENTER'',
     template = JStr ''Trang {PAGE}/{NUMPAGES}'',
     start_at = JInt 1,
     restart_each_section = JBool False,
     number_format = JStr ''DECIMAL'',
     font_name = JStr ''Times New Roman'',
     font_size_pt = JFloat 11 \<rparr>"

definition PageNumberConfig_fields :: "string list" where
  "PageNumberConfig_fields = [''enabled'', ''position'', ''template'', ''start_at'',
     ''restart_each_section'', ''number_format'', ''font_name'', ''font_size_pt'']"

definition pagenumber_to_dict :: "PageNumberConfig \<Rightarrow> dict" where
  "pagenumber_to_dict s = [
     (''enabled'', enabled s),
     (''position'', position s),
     (''template'', template s),
     (''start_at'', start_at s),
     (''restart_each_section'', restart_each_section s),
     (''number_format'', number_format s),
     (''font_name'', PageNumberConfig.font_name s),
     (''font_size_pt'', PageNumberConfig.font_size_pt s)]"

text \<open>\<^verbatim>\<open>def build_pagenumber(x): return PageNumberConfig(**x)\<close>\<close>

definition build_pagenumber :: "json \<Rightarrow> error + PageNumberConfig" where
  "build_pagenumber x =
     (case x of
        JDict kw \<Rightarrow>
          if unexpected_keyword PageNumberConfig_fields kw then Inl TypeError
          else Inr \<lparr>
            enabled = kwarg kw ''enabled'' (enabled PageNumberConfig_default),
            position = kwarg kw ''position'' (position PageNumberConfig_default),
            template = kwarg kw ''template'' (template PageNumberConfig_default),
            start_at = kwarg kw ''start_at'' (start_at PageNumberConfig_default),
            restart_each_section =
              kwarg kw ''restart_each_section'' (restart_each_section PageNumberConfig_default),
            number_format = kwarg kw ''number_format'' (number_format PageNumberConfig_default),
            font_name =
              kwarg kw ''font_name'' (PageNumberConfig.font_name PageNumberConfig_default),
            font_size_pt =
              kwarg kw ''font_size_pt'' (PageNumberConfig.font_size_pt PageNumberConfig_default) \<rparr>
      | _ \<Rightarrow> Inl TypeError)"

record ReportConfig =
  normal :: StyleConfig
  title :: StyleConfig
  heading1 :: StyleConfig
  heading2 :: StyleConfig
  heading3 :: StyleConfig
  caption :: StyleConfig
  pagesetup :: PageSetupConfig
  pagenumber :: PageNumberConfig
  toc :: TocConfig
  processing :: ProcessingConfig

text \<open>\<^verbatim>\<open>ReportConfig()\<close>: the defaults of the dataclass.\<close>

definition ReportConfig_default :: ReportConfig where
  "ReportConfig_default = \<lparr>
     normal = StyleConfig_default,
     title = StyleConfig_default \<lparr>
       StyleConfig.font_size_pt := JFloat 16, bold := JBool True, alignment := JStr ''CENTER'',
       space_after_pt := JFloat 12, first_line_indent_cm := JFloat 0,
       line_spacing := JFloat (6 / 5) \<rparr>,
     heading1 = StyleConfig_default \<lparr>
       StyleConfig.font_size_pt := JFloat 14, bold := JBool True, alignment := JStr ''LEFT'',
       space_before_pt := JFloat 12, space_after_pt := JFloat 6,
       first_line_indent_cm := JFloat 0, line_spacing := JFloat (6 / 5),
       keep_with_next := JBool True \<rparr>,
     heading2 = StyleConfig_default \<lparr>
       StyleConfig.font_size_pt := JFloat 13, bold := JBool True, alignment := JStr ''LEFT'',
       space_before_pt := JFloat 10, space_after_pt := JFloat 4,
       first_line_indent_cm := JFloat 0, line_spacing := JFloat (6 / 5),
       keep_with_next := JBool True \<rparr>,
     heading3 = StyleConfig_default \<lparr>
       StyleConfig.font_size_pt := JFloat 13, bold := JBool True, italic := JBool True,
       alignment := JStr ''LEFT'', space_before_pt := JFloat 8, space_after_pt := JFloat 4,
       first_line_indent_cm := JFloat 0, line_spacing := JFloat (6 / 5),
       keep_with_next := JBool True \<rparr>,
     caption = StyleConfig_default \<lparr>
       StyleConfig.font_size_pt := JFloat 11, italic := JBool True, alignment := JStr ''CENTER'',
       space_before_pt := JFloat 6, space_after_pt := JFloat 6,
       first_line_indent_cm := JFloat 0, line_spacing := JFloat 1 \<rparr>,
     pagesetup = PageSetupConfig_default,
     pagenumber = PageNumberConfig_default,
     toc = TocConfig_default,
     processing = ProcessingConfig_default \<rparr>"

definition ReportConfig_fields :: "string list" where
  "ReportConfig_fields = [''normal'', ''title'', ''heading1'', ''heading2'', ''heading3'',
     ''caption'', ''pagesetup'', ''pagenumber'', ''toc'', ''processing'']"

text \<open>
  \<^verbatim>\<open>def cfg_to_dict(cfg): return asdict(cfg)\<close>; \<^verbatim>\<open>asdict\<close> turns the nested dataclasses
  into nested dictionaries.
\<close>

definition cfg_to_dict :: "ReportConfig \<Rightarrow> dict" where
  "cfg_to_dict cfg = [
     (''normal'', JDict (style_to_dict (normal cfg))),
     (''title'', JDict (style_to_dict (title cfg))),
     (''heading1'', JDict (style_to_dict (heading1 cfg))),
     (''heading2'', JDict (style_to_dict (heading2 cfg))),
     (''heading3'', JDict (style_to_dict (heading3 cfg))),
     (''caption'', JDict (style_to_dict (caption cfg))),
     (''pagesetup'', JDict (pagesetup_to_dict (pagesetup cfg))),
     (''pagenumber'', JDict (pagenumber_to_dict (pagenumber cfg))),
     (''toc'', JDict (toc_to_dict (toc cfg))),
     (''processing'', JDict (processing_to_dict (processing cfg)))]"

section \<open>Configuration merge and (de)serialisation\<close>

text \<open>
  \<^verbatim>\<open>deep_merge(a, b)\<close>. The function \<open>merge_items\<close> is its loop
  \<^verbatim>\<open>for k, v in (b or {}).items()\<close>, with the dictionary \<open>out\<close> as loop state;
  \<^verbatim>\<open>out[k] = v\<close> replaces the value of a key in place and appends a new key at the end,
  as \<^const>\<open>AList.update\<close> does. Calling \<^verbatim>\<open>.items()\<close> on a truthy value that is not a
  dictionary raises \<^verbatim>\<open>AttributeError\<close>.
\<close>

function deep_merge :: "dict \<Rightarrow> json \<Rightarrow> error + dict"
  and merge_items :: "dict \<Rightarrow> (string \<times> json) list \<Rightarrow> error + dict" where
  "deep_merge a b =
     (case (if truthy b then b else JDict []) of
        JDict items \<Rightarrow> merge_items a items
      | _ \<Rightarrow> Inl AttributeError)"
| "merge_items out [] = Inr out"
| "merge_items out ((k, v) # rest) =
     (case (v, map_of out k) of
        (JDict vitems, Some (JDict sub)) \<Rightarrow>
          (case deep_merge sub v of
             Inl e \<Rightarrow> Inl e
           | Inr m \<Rightarrow> merge_items (AList.update k (JDict m) out) rest)
      | _ \<Rightarrow> merge_items (AList.update k v out) rest)"
  by pat_completeness auto
termination
  by (relation "measure (\<lambda>x. case x of
            Inl (a, b) \<Rightarrow> 2 * size b + 1
          | Inr (out, items) \<Rightarrow> 2 * size_list (size_prod (\<lambda>_. 0) size) items)")
    (auto split: if_splits json.splits)

text \<open>\<^verbatim>\<open>merged[k]\<close>: a missing key raises \<^verbatim>\<open>KeyError\<close>.\<close>

definition getitem :: "dict \<Rightarrow> string \<Rightarrow> error + json" where
  "getitem d k = (case map_of d k of None \<Rightarrow> Inl KeyError | Some v \<Rightarrow> Inr v)"

text \<open>
  \<^verbatim>\<open>cfg_from_dict(d)\<close>: merge \<open>d\<close> over the defaults, then build the ten records; the
  arguments of the \<^verbatim>\<open>ReportConfig\<close> constructor are evaluated in order, and the first
  exception ends the call.
\<close>

definition cfg_from_dict :: "json \<Rightarrow> error + ReportConfig" where
  "cfg_from_dict d =
     bind (deep_merge (cfg_to_dict ReportConfig_default) d) (\<lambda>merged.
     bind (bind (getitem merged ''normal'') build_style) (\<lambda>v_normal.
     bind (bind (getitem merged ''title'') build_style) (\<lambda>v_title.
     bind (bind (getitem merged ''heading1'') build_style) (\<lambda>v_heading1.
     bind (bind (getitem merged ''heading2'') build_style) (\<lambda>v_heading2.
     bind (bind (getitem merged ''heading3'') build_style) (\<lambda>v_heading3.
     bind (bind (getitem merged ''caption'') build_style) (\<lambda>v_caption.
     bind (bind (getitem merged ''pagesetup'') build_pagesetup) (\<lambda>v_pagesetup.
     bind (bind (getitem merged ''pagenumber'') build_pagenumber) (\<lambda>v_pagenumber.
     bind (bind (getitem merged ''toc'') build_toc) (\<lambda>v_toc.
     bind (bind (getitem merged ''processing'') build_processing) (\<lambda>v_processing.
     Inr \<lparr>
       normal = v_normal,
       title = v_title,
       heading1 = v_heading1,
       heading2 = v_heading2,
       heading3 = v_heading3,
       caption = v_caption,
       pagesetup = v_pagesetup,
       pagenumber = v_pagenumber,
       toc = v_toc,
       processing = v_processing \<rparr>)))))))))))"

text \<open>
  The JSON text layer is Python's \<^verbatim>\<open>json\<close> module and the UTF-8 codec, which are not
  part of the program; they are parameters of the two functions below:
  \<open>loads\<close> stands for \<^verbatim>\<open>json.loads(data.decode("utf-8"))\<close>, and \<open>dumps\<close> for
  \<^verbatim>\<open>json.dumps(_, ensure_ascii=False, indent=2).encode("utf-8")\<close>.
\<close>

definition load_config_json_bytes :: "('b \<Rightarrow> error + json) \<Rightarrow> 'b \<Rightarrow> error + ReportConfig" where
  "load_config_json_bytes loads data = bind (loads data) (\<lambda>d. cfg_from_dict d)"

definition save_config_json_bytes :: "(json \<Rightarrow> 'b) \<Rightarrow> ReportConfig \<Rightarrow> 'b" where
  "save_config_json_bytes dumps cfg = dumps (JDict (cfg_to_dict cfg))"

text \<open>
  The value that one round of the loop of \<^verbatim>\<open>deep_merge\<close> stores under the key \<open>k\<close>:
  the recursive merge when both sides are dictionaries, the new value otherwise.
\<close>

definition stored :: "dict \<Rightarrow> string \<Rightarrow> json \<Rightarrow> json" where
  "stored out k v =
     (case (v, map_of out k) of
        (JDict vitems, Some (JDict sub)) \<Rightarrow>
          (case deep_merge sub v of Inl e \<Rightarrow> v | Inr m \<Rightarrow> JDict m)
      | _ \<Rightarrow> v)"

text \<open>
  Merging the value \<open>v\<close> over the old value \<open>ov\<close> gives \<open>v\<close> itself: always when one of the
  two is not a dictionary, and when the recursive merge returns the items of \<open>v\<close>.
\<close>

definition absorbs :: "json \<Rightarrow> json \<Rightarrow> bool" where
  "absorbs ov v =
     (case (v, ov) of
        (JDict vitems, JDict sub) \<Rightarrow> deep_merge sub v = Inr vitems
      | _ \<Rightarrow> True)"

text \<open>An item of the partial mapping takes the place of the item with the same key.\<close>

definition overwritten :: "string \<times> json \<Rightarrow> string \<times> json \<Rightarrow> bool" where
  "overwritten old new = (fst old = fst new \<and> absorbs (snd old) (snd new))"

text \<open>The fields of the record that \<^verbatim>\<open>cfg_from_dict\<close> builds for a section key.\<close>

definition section_fields :: "string \<Rightarrow> string list" where
  "section_fields s =
     (if s \<in> set [''normal'', ''title'', ''heading1'', ''heading2'', ''heading3'', ''caption'']
      then StyleConfig_fields
      else if s = ''pagesetup'' then PageSetupConfig_fields
      else if s = ''pagenumber'' then PageNumberConfig_fields
      else if s = ''toc'' then TocConfig_fields
      else if s = ''processing'' then ProcessingConfig_fields
      else [])"

text \<open>The items of a dictionary whose key is one of the ten section keys.\<close>

definition known_items :: "dict \<Rightarrow> dict" where
  "known_items its = filter (\<lambda>kv. fst kv \<in> set ReportConfig_fields) its"

section \<open>The document object model\<close>

text \<open>
  The document library is an external collaborator of the program. It is modelled as
  the object model that the source reads and writes: sections, named styles, body
  paragraphs and tables, paragraphs with an assigned style name, paragraph-format
  properties and child elements (runs and simple fields). A property that the source
  assigns is a field that holds the assigned value; where the library raises instead
  (a member that an object does not have, a value that a setter or a constructor
  rejects), the model raises the library's exception.
\<close>

datatype WD_ALIGN_PARAGRAPH = LEFT | CENTER | RIGHT | JUSTIFY

text \<open>
  The lengths \<^verbatim>\<open>Pt(x)\<close> and \<^verbatim>\<open>Cm(x)\<close> that the library builds from a number of points
  or centimetres. The conversion to the library's own unit is not part of the program.
\<close>

datatype Length = Pt json | Cm json

type_synonym bytes = "nat list"

text \<open>
  A font: \<^verbatim>\<open>font.name\<close>, \<^verbatim>\<open>font.size\<close>, \<^verbatim>\<open>font.bold\<close>, \<^verbatim>\<open>font.italic\<close>,
  \<^verbatim>\<open>font.color.rgb\<close>, and the four attributes \<^verbatim>\<open>w:ascii\<close>, \<^verbatim>\<open>w:hAnsi\<close>,
  \<^verbatim>\<open>w:eastAsia\<close>, \<^verbatim>\<open>w:cs\<close> of its \<^verbatim>\<open>rFonts\<close> element.
\<close>

record Font =
  name :: json
  size' :: "Length option"
  bold :: json
  italic :: json
  color_rgb :: "bytes option"
  rFonts_ascii :: "json option"
  rFonts_hAnsi :: "json option"
  rFonts_eastAsia :: "json option"
  rFonts_cs :: "json option"

definition Font_empty :: Font where
  "Font_empty = \<lparr> name = JNull, size' = None, bold = JNull, italic = JNull, color_rgb = None,
     rFonts_ascii = None, rFonts_hAnsi = None, rFonts_eastAsia = None, rFonts_cs = None \<rparr>"

record ParagraphFormat =
  line_spacing :: json
  space_before :: "Length option"
  space_after :: "Length option"
  first_line_indent :: "Length option"
  alignment :: "WD_ALIGN_PARAGRAPH option"
  keep_with_next :: json
  page_break_before :: json

definition ParagraphFormat_empty :: ParagraphFormat where
  "ParagraphFormat_empty = \<lparr> line_spacing = JNull, space_before = None, space_after = None,
     first_line_indent = None, alignment = None, keep_with_next = JNull,
     page_break_before = JNull \<rparr>"

text \<open>A style of the style table: \<^verbatim>\<open>style.font\<close> and \<^verbatim>\<open>style.paragraph_format\<close>.\<close>

record DocxStyle =
  font :: Font
  paragraph_format :: ParagraphFormat

text \<open>
  A run: its text, its font, and the number of breaks added to it by \<^verbatim>\<open>add_break()\<close>.
\<close>

record Run =
  text' :: string
  font :: Font
  breaks :: nat

text \<open>
  The children of a paragraph element: runs, and the simple fields that
  \<^verbatim>\<open>_add_simple_field\<close> appends (\<^verbatim>\<open>w:fldSimple\<close> with its instruction and the
  placeholder text of its inner run).
\<close>

datatype PChild = RunChild Run | FldSimple string string

text \<open>
  A paragraph: the name of its assigned style (\<open>None\<close> when \<^verbatim>\<open>p.style\<close> is \<^verbatim>\<open>None\<close>),
  its paragraph format, and its children in order.
\<close>

record Paragraph =
  style :: "string option"
  paragraph_format :: ParagraphFormat
  children :: "PChild list"

text \<open>\<^verbatim>\<open>p.runs\<close>: the runs among the children of the paragraph.\<close>

fun child_runs :: "PChild list \<Rightarrow> Run list" where
  "child_runs [] = []"
| "child_runs (RunChild r # cs) = r # child_runs cs"
| "child_runs (FldSimple instr txt # cs) = child_runs cs"

definition runs :: "Paragraph \<Rightarrow> Run list" where
  "runs p = child_runs (children p)"

text \<open>
  A paragraph newly created with a text, as \<^verbatim>\<open>add_paragraph(text)\<close> and
  \<^verbatim>\<open>insert_paragraph_before(text)\<close> of the library return it: the text is put in a
  single run when it is not empty (\<^verbatim>\<open>if text: paragraph.add_run(text)\<close>), and an empty
  text gives a paragraph without runs.
\<close>

definition new_run :: "string \<Rightarrow> Run" where
  "new_run t = \<lparr> text' = t, font = Font_empty, breaks = 0 \<rparr>"

definition new_paragraph :: "string \<Rightarrow> Paragraph" where
  "new_paragraph t = \<lparr> style = None, paragraph_format = ParagraphFormat_empty,
     children = (if t \<noteq> [] then [RunChild (new_run t)] else []) \<rparr>"

text \<open>
  A table is its rows, a row its cells, a cell its paragraphs. The body of a document is
  a sequence of paragraphs and tables; \<^verbatim>\<open>doc.paragraphs\<close> and \<^verbatim>\<open>doc.tables\<close> are the
  paragraphs and the tables of the body, each in document order.
\<close>

type_synonym Cell = "Paragraph list"
type_synonym Table = "Cell list list"

datatype Block = BlockP Paragraph | BlockT Table

text \<open>
  The page-numbering element \<^verbatim>\<open>w:pgNumType\<close> of a section with its attributes
  \<^verbatim>\<open>w:fmt\<close> and \<^verbatim>\<open>w:start\<close>.
\<close>

record PgNumType =
  fmt :: "string option"
  start :: "string option"

text \<open>
  A section: its page-numbering element, if it has one, and the paragraphs of its
  header and footer.
\<close>

record Section =
  pgNumType :: "PgNumType option"
  header :: "Paragraph list"
  footer :: "Paragraph list"

record Document =
  body :: "Block list"
  sections :: "Section list"
  styles :: "(string \<times> DocxStyle) list"

section \<open>Strings and built-in functions\<close>

definition lower_char :: "char \<Rightarrow> char" where
  "lower_char c = (let n = (of_char c :: nat) in if 65 \<le> n \<and> n \<le> 90 then char_of (n + 32) else c)"

definition upper_char :: "char \<Rightarrow> char" where
  "upper_char c = (let n = (of_char c :: nat) in if 97 \<le> n \<and> n \<le> 122 then char_of (n - 32) else c)"

text \<open>
  \<^verbatim>\<open>s.lower()\<close> and \<^verbatim>\<open>s.upper()\<close>, on the ASCII letters; the other characters are left
  as they are.
\<close>

definition lower :: "string \<Rightarrow> string" where
  "lower s = map lower_char s"

definition upper :: "string \<Rightarrow> string" where
  "upper s = map upper_char s"

text \<open>\<^verbatim>\<open>x.upper()\<close> on a configuration value: only a string has the method.\<close>

definition upper_of :: "json \<Rightarrow> error + string" where
  "upper_of x = (case x of JStr s \<Rightarrow> Inr (upper s) | _ \<Rightarrow> Inl AttributeError)"

text \<open>\<^verbatim>\<open>d.get(k, default)\<close>\<close>

definition dict_get :: "(string \<times> 'a) list \<Rightarrow> string \<Rightarrow> 'a \<Rightarrow> 'a" where
  "dict_get d k dflt = (case map_of d k of Some v \<Rightarrow> v | None \<Rightarrow> dflt)"

definition ALIGN_MAP :: "(string \<times> WD_ALIGN_PARAGRAPH) list" where
  "ALIGN_MAP = [(''LEFT'', LEFT), (''CENTER'', CENTER), (''RIGHT'', RIGHT), (''JUSTIFY'', JUSTIFY)]"

definition PAGE_FMT_MAP :: "(string \<times> string) list" where
  "PAGE_FMT_MAP = [(''DECIMAL'', ''decimal''), (''ROMAN_UPPER'', ''upperRoman''),
     (''ROMAN_LOWER'', ''lowerRoman''), (''LETTER_UPPER'', ''upperLetter''),
     (''LETTER_LOWER'', ''lowerLetter'')]"

text \<open>
  \<^verbatim>\<open>bytes.fromhex(s)\<close>: pairs of hexadecimal digits, with ASCII whitespace allowed
  between the pairs; anything else raises \<^verbatim>\<open>ValueError\<close>.
\<close>

definition hexval :: "char \<Rightarrow> nat option" where
  "hexval c = (let n = (of_char c :: nat) in
     if 48 \<le> n \<and> n \<le> 57 then Some (n - 48)
     else if 97 \<le> n \<and> n \<le> 102 then Some (n - 87)
     else if 65 \<le> n \<and> n \<le> 70 then Some (n - 55)
     else None)"

definition is_space :: "char \<Rightarrow> bool" where
  "is_space c = (let n = (of_char c :: nat) in n = 32 \<or> (9 \<le> n \<and> n \<le> 13))"

fun fromhex :: "string \<Rightarrow> error + bytes" where
  "fromhex [] = Inr []"
| "fromhex (c # cs) =
     (if is_space c then fromhex cs
      else (case hexval c of
        None \<Rightarrow> Inl ValueError
      | Some hi \<Rightarrow>
          (case cs of
             [] \<Rightarrow> Inl ValueError
           | d # ds \<Rightarrow>
               (case hexval d of
                  None \<Rightarrow> Inl ValueError
                | Some lo \<Rightarrow>
                    (case fromhex ds of
                       Inl e \<Rightarrow> Inl e
                     | Inr bs \<Rightarrow> Inr ((16 * hi + lo) # bs))))))"

text \<open>
  \<^verbatim>\<open>int(x)\<close>: an integer is itself, a boolean is 0 or 1, a float is truncated towards
  zero, a string is read as a decimal literal (surrounding whitespace, an optional sign,
  digits with single underscores between them), and any other value raises.
\<close>

definition digit_value :: "char \<Rightarrow> nat option" where
  "digit_value c = (let n = (of_char c :: nat) in if 48 \<le> n \<and> n \<le> 57 then Some (n - 48) else None)"

fun digits_value :: "string \<Rightarrow> nat \<Rightarrow> nat option" where
  "digits_value [] acc = None"
| "digits_value (c # rest) acc =
     (case digit_value c of
        None \<Rightarrow> None
      | Some d \<Rightarrow>
          (case rest of
             [] \<Rightarrow> Some (10 * acc + d)
           | c' # rest' \<Rightarrow>
               if c' = CHR ''_'' then digits_value rest' (10 * acc + d)
               else digits_value rest (10 * acc + d)))"

definition strip :: "string \<Rightarrow> string" where
  "strip s = rev (dropWhile is_space (rev (dropWhile is_space s)))"

definition int_of_str :: "string \<Rightarrow> error + int" where
  "int_of_str s =
     (case strip s of
        [] \<Rightarrow> Inl ValueError
      | c # rest \<Rightarrow>
          if c = CHR ''-'' then
            (case digits_value rest 0 of None \<Rightarrow> Inl ValueError | Some n \<Rightarrow> Inr (- int n))
          else if c = CHR ''+'' then
            (case digits_value rest 0 of None \<Rightarrow> Inl ValueError | Some n \<Rightarrow> Inr (int n))
          else
            (case digits_value (c # rest) 0 of None \<Rightarrow> Inl ValueError | Some n \<Rightarrow> Inr (int n)))"

definition py_int :: "json \<Rightarrow> error + int" where
  "py_int x =
     (case x of
        JInt n \<Rightarrow> Inr n
      | JBool b \<Rightarrow> Inr (if b then 1 else 0)
      | JFloat q \<Rightarrow> Inr (if 0 \<le> q then \<lfloor>q\<rfloor> else \<lceil>q\<rceil>)
      | JStr s \<Rightarrow> int_of_str s
      | _ \<Rightarrow> Inl TypeError)"

text \<open>\<^verbatim>\<open>str(n)\<close> of an integer: its decimal digits, after a minus sign when it is negative.\<close>

function str_of_nat :: "nat \<Rightarrow> string" where
  "str_of_nat n =
     (if n < 10 then [char_of (48 + n)] else str_of_nat (n div 10) @ [char_of (48 + n mod 10)])"
  by pat_completeness auto
termination
  by (relation "measure (\<lambda>n. n)") auto

declare str_of_nat.simps [simp del]

definition str_of_int :: "int \<Rightarrow> string" where
  "str_of_int n = (if n < 0 then CHR ''-'' # str_of_nat (nat (- n)) else str_of_nat (nat n))"

section \<open>Style application\<close>

text \<open>
  The four calls \<^verbatim>\<open>rFonts.set(qn("w:ascii"), font_name)\<close>, \<^verbatim>\<open>w:hAnsi\<close>, \<^verbatim>\<open>w:eastAsia\<close>,
  \<^verbatim>\<open>w:cs\<close> on an \<^verbatim>\<open>rFonts\<close> element.
\<close>

definition set_rFonts :: "Font \<Rightarrow> json \<Rightarrow> Font" where
  "set_rFonts f fname =
     f \<lparr> rFonts_ascii := Some fname, rFonts_hAnsi := Some fname,
         rFonts_eastAsia := Some fname, rFonts_cs := Some fname \<rparr>"

text \<open>
  \<^verbatim>\<open>font_element.rFonts\<close> on the font object of a style: the library's font object has no
  member \<^verbatim>\<open>rFonts\<close> (the element is reached through the run properties, as
  \<^verbatim>\<open>_force_run_font\<close> does), so the attribute access raises \<^verbatim>\<open>AttributeError\<close>.
\<close>

definition font_rFonts :: "Font \<Rightarrow> error + Font" where
  "font_rFonts font_element = Inl AttributeError"

text \<open>
  \<^verbatim>\<open>_set_font_all_scripts(font_element, font_name)\<close>: the attribute access of its first
  line, then the four calls.
\<close>

definition set_font_all_scripts :: "Font \<Rightarrow> json \<Rightarrow> error + Font" where
  "set_font_all_scripts font_element fname =
     bind (font_rFonts font_element) (\<lambda>rFonts. Inr (set_rFonts rFonts fname))"

text \<open>\<^verbatim>\<open>bytes.fromhex(x)\<close> on a configuration value: only a string is accepted.\<close>

definition fromhex_of :: "json \<Rightarrow> error + bytes" where
  "fromhex_of x = (case x of JStr s \<Rightarrow> fromhex s | _ \<Rightarrow> Inl TypeError)"

text \<open>
  \<^verbatim>\<open>font.color.rgb = value\<close> with a \<^verbatim>\<open>bytes\<close> value: the setter of the library removes the
  colour the font had and then rejects the value, which is not an \<^verbatim>\<open>RGBColor\<close>, with
  \<^verbatim>\<open>ValueError\<close>. The font after the failed assignment is the first component.
\<close>

definition set_color_rgb :: "Font \<Rightarrow> bytes \<Rightarrow> Font \<times> error" where
  "set_color_rgb f b = (f \<lparr> color_rgb := None \<rparr>, ValueError)"

text \<open>
  \<^verbatim>\<open>if cfg.color_hex: try: font.color.rgb = bytes.fromhex(cfg.color_hex) except Exception: pass\<close>:
  an exception of \<^verbatim>\<open>bytes.fromhex\<close> leaves the font as it is, and the exception of the
  setter leaves it as the setter left it.
\<close>

definition apply_color :: "Font \<Rightarrow> json \<Rightarrow> Font" where
  "apply_color f c =
     (if truthy c then
        (case fromhex_of c of
           Inr b \<Rightarrow> fst (set_color_rgb f b)
         | Inl e \<Rightarrow> f)
      else f)"

text \<open>
  \<^verbatim>\<open>int(x * k)\<close>, as the constructors \<^verbatim>\<open>Pt\<close> (with \<open>k\<close> = 12700) and \<^verbatim>\<open>Cm\<close> (with \<open>k\<close> =
  360000) of the library compute it: a number gives a length; a string is repeated \<open>k\<close>
  times and read by \<^verbatim>\<open>int\<close>; \<^verbatim>\<open>None\<close>, a list and a dictionary raise \<^verbatim>\<open>TypeError\<close>.
\<close>

definition scaled :: "nat \<Rightarrow> json \<Rightarrow> error + unit" where
  "scaled k x =
     (case x of
        JInt n \<Rightarrow> Inr ()
      | JFloat q \<Rightarrow> Inr ()
      | JBool b \<Rightarrow> Inr ()
      | JStr s \<Rightarrow> bind (int_of_str (concat (replicate k s))) (\<lambda>n. Inr ())
      | _ \<Rightarrow> Inl TypeError)"

text \<open>\<^verbatim>\<open>Pt(x)\<close> and \<^verbatim>\<open>Cm(x)\<close> with the exceptions of their arithmetic.\<close>

definition Pt_of :: "json \<Rightarrow> error + Length" where
  "Pt_of x = bind (scaled 12700 x) (\<lambda>u. Inr (Pt x))"

definition Cm_of :: "json \<Rightarrow> error + Length" where
  "Cm_of x = bind (scaled 360000 x) (\<lambda>u. Inr (Cm x))"

text \<open>\<^verbatim>\<open>Cm(x) if x else None\<close>\<close>

definition indent_of :: "json \<Rightarrow> error + Length option" where
  "indent_of x = (if truthy x then bind (Cm_of x) (\<lambda>l. Inr (Some l)) else Inr None)"

text \<open>
  The seven assignments to a paragraph format that \<^verbatim>\<open>_apply_style_to_docx_style\<close> and
  the loop body of \<^verbatim>\<open>_force_paragraph_format\<close> both make, in the order of the source.
  \<^verbatim>\<open>Pt\<close> and \<^verbatim>\<open>Cm\<close> raise on a value that is not a number, and
  \<^verbatim>\<open>cfg.alignment.upper()\<close> raises when the alignment is not a string.
\<close>

definition set_paragraph_format :: "ParagraphFormat \<Rightarrow> StyleConfig \<Rightarrow> error + ParagraphFormat" where
  "set_paragraph_format pf cfg =
     (let pf1 = pf \<lparr> line_spacing := StyleConfig.line_spacing cfg \<rparr> in
      bind (Pt_of (space_before_pt cfg)) (\<lambda>before.
        let pf2 = pf1 \<lparr> space_before := Some before \<rparr> in
        bind (Pt_of (space_after_pt cfg)) (\<lambda>after.
          let pf3 = pf2 \<lparr> space_after := Some after \<rparr> in
          bind (indent_of (first_line_indent_cm cfg)) (\<lambda>indent.
            let pf4 = pf3 \<lparr> first_line_indent := indent \<rparr> in
            bind (upper_of (StyleConfig.alignment cfg)) (\<lambda>key.
              Inr (pf4 \<lparr> alignment := Some (dict_get ALIGN_MAP key JUSTIFY),
                         keep_with_next := StyleConfig.keep_with_next cfg,
                         page_break_before := StyleConfig.page_break_before cfg \<rparr>))))))"

text \<open>
  \<^verbatim>\<open>_apply_style_to_docx_style(docx_style, cfg)\<close>: the font name, the call of
  \<^verbatim>\<open>_set_font_all_scripts\<close>, the size, bold and italic, the colour, and the paragraph
  format.
\<close>

definition apply_style_to_docx_style :: "DocxStyle \<Rightarrow> StyleConfig \<Rightarrow> error + DocxStyle" where
  "apply_style_to_docx_style docx_style cfg =
     (let f1 = (DocxStyle.font docx_style) \<lparr> name := StyleConfig.font_name cfg \<rparr> in
      bind (set_font_all_scripts f1 (StyleConfig.font_name cfg)) (\<lambda>f2.
      bind (Pt_of (StyleConfig.font_size_pt cfg)) (\<lambda>sz.
        let f3 = f2 \<lparr> size' := Some sz,
                      bold := StyleConfig.bold cfg,
                      italic := StyleConfig.italic cfg \<rparr>;
            f4 = apply_color f3 (color_hex cfg)
        in bind (set_paragraph_format (DocxStyle.paragraph_format docx_style) cfg) (\<lambda>pf.
             Inr (docx_style \<lparr> DocxStyle.font := f4, DocxStyle.paragraph_format := pf \<rparr>)))))"

text \<open>
  \<^verbatim>\<open>if name in styles: _apply_style_to_docx_style(styles[name], scfg)\<close>: a style that the
  style table does not have is skipped.
\<close>

definition apply_named_style ::
  "string \<Rightarrow> StyleConfig \<Rightarrow> (string \<times> DocxStyle) list \<Rightarrow> error + (string \<times> DocxStyle) list" where
  "apply_named_style n scfg table =
     (case map_of table n of
        None \<Rightarrow> Inr table
      | Some st \<Rightarrow> bind (apply_style_to_docx_style st scfg) (\<lambda>st'. Inr (AList.update n st' table)))"

text \<open>\<^verbatim>\<open>_apply_styles(doc)\<close>\<close>

definition apply_styles :: "ReportConfig \<Rightarrow> Document \<Rightarrow> error + Document" where
  "apply_styles cfg doc =
     bind (apply_named_style ''Normal'' (normal cfg) (styles doc)) (\<lambda>t1.
     bind (apply_named_style ''Title'' (title cfg) t1) (\<lambda>t2.
     bind (apply_named_style ''Heading 1'' (heading1 cfg) t2) (\<lambda>t3.
     bind (apply_named_style ''Heading 2'' (heading2 cfg) t3) (\<lambda>t4.
     bind (apply_named_style ''Heading 3'' (heading3 cfg) t4) (\<lambda>t5.
     bind (apply_named_style ''Caption'' (caption cfg) t5) (\<lambda>t6.
     Inr (doc \<lparr> styles := t6 \<rparr>)))))))"

text \<open>The number that a configuration value holds, when it is an integer or a float.\<close>

definition number_value :: "json \<Rightarrow> rat option" where
  "number_value x = (case x of JInt n \<Rightarrow> Some (of_int n) | JFloat q \<Rightarrow> Some q | _ \<Rightarrow> None)"

text \<open>
  A style configuration whose fields hold values of the types that the dataclass
  declares: strings, numbers, booleans, and \<^verbatim>\<open>None\<close> or a string for the colour.
\<close>

definition is_number :: "json \<Rightarrow> bool" where
  "is_number x = (case x of JInt n \<Rightarrow> True | JFloat q \<Rightarrow> True | _ \<Rightarrow> False)"

definition is_str :: "json \<Rightarrow> bool" where
  "is_str x = (case x of JStr s \<Rightarrow> True | _ \<Rightarrow> False)"

definition is_bool :: "json \<Rightarrow> bool" where
  "is_bool x = (case x of JBool b \<Rightarrow> True | _ \<Rightarrow> False)"

definition valid_StyleConfig :: "StyleConfig \<Rightarrow> bool" where
  "valid_StyleConfig c =
     (is_str (StyleConfig.font_name c) \<and> is_number (StyleConfig.font_size_pt c)
      \<and> is_bool (StyleConfig.bold c) \<and> is_bool (StyleConfig.italic c)
      \<and> (color_hex c = JNull \<or> is_str (color_hex c))
      \<and> is_number (StyleConfig.line_spacing c)
      \<and> is_number (space_before_pt c) \<and> is_number (space_after_pt c)
      \<and> is_number (first_line_indent_cm c)
      \<and> is_str (StyleConfig.alignment c)
      \<and> is_bool (StyleConfig.keep_with_next c) \<and> is_bool (StyleConfig.page_break_before c))"

section \<open>Force-override sweeps\<close>

text \<open>The loop \<^verbatim>\<open>for x in xs\<close> with a body that may raise: the first exception ends it.\<close>

fun for_each :: "('a \<Rightarrow> error + 'a) \<Rightarrow> 'a list \<Rightarrow> error + 'a list" where
  "for_each f [] = Inr []"
| "for_each f (x # xs) = bind (f x) (\<lambda>y. bind (for_each f xs) (\<lambda>ys. Inr (y # ys)))"

text \<open>
  \<^verbatim>\<open>_iter_all_paragraphs(doc, include_tables)\<close> yields the paragraphs of the body, and
  then, when tables are included, the paragraphs of every cell of every row of every
  table of the body. The two functions below are the two loops of the generator, over a
  loop body \<open>f\<close> that updates the paragraph it is given.
\<close>

fun on_body_paragraph :: "(Paragraph \<Rightarrow> error + Paragraph) \<Rightarrow> Block \<Rightarrow> error + Block" where
  "on_body_paragraph f (BlockP p) = bind (f p) (\<lambda>p'. Inr (BlockP p'))"
| "on_body_paragraph f (BlockT t) = Inr (BlockT t)"

fun on_table_paragraphs :: "(Paragraph \<Rightarrow> error + Paragraph) \<Rightarrow> Block \<Rightarrow> error + Block" where
  "on_table_paragraphs f (BlockP p) = Inr (BlockP p)"
| "on_table_paragraphs f (BlockT t) =
     bind (for_each (for_each (for_each f)) t) (\<lambda>t'. Inr (BlockT t'))"

definition for_all_paragraphs ::
  "(Paragraph \<Rightarrow> error + Paragraph) \<Rightarrow> json \<Rightarrow> Document \<Rightarrow> error + Document" where
  "for_all_paragraphs f incl_tables doc =
     bind (for_each (on_body_paragraph f) (body doc)) (\<lambda>b1.
       if truthy incl_tables
       then bind (for_each (on_table_paragraphs f) b1) (\<lambda>b2. Inr (doc \<lparr> body := b2 \<rparr>))
       else Inr (doc \<lparr> body := b1 \<rparr>))"

text \<open>The paragraphs that \<^verbatim>\<open>_iter_all_paragraphs\<close> yields, in its order.\<close>

fun body_paragraphs :: "Block list \<Rightarrow> Paragraph list" where
  "body_paragraphs [] = []"
| "body_paragraphs (BlockP p # bs) = p # body_paragraphs bs"
| "body_paragraphs (BlockT t # bs) = body_paragraphs bs"

fun body_tables :: "Block list \<Rightarrow> Table list" where
  "body_tables [] = []"
| "body_tables (BlockP p # bs) = body_tables bs"
| "body_tables (BlockT t # bs) = t # body_tables bs"

definition iter_all_paragraphs :: "Document \<Rightarrow> json \<Rightarrow> Paragraph list" where
  "iter_all_paragraphs doc incl_tables =
     body_paragraphs (body doc) @
     (if truthy incl_tables then concat (concat (concat (body_tables (body doc)))) else [])"

text \<open>\<^verbatim>\<open>(p.style.name if p.style is not None else "Normal").lower()\<close>\<close>

definition style_name_lower :: "Paragraph \<Rightarrow> string" where
  "style_name_lower p = lower (case style p of Some n \<Rightarrow> n | None \<Rightarrow> ''Normal'')"

text \<open>The body of the loop of \<^verbatim>\<open>_force_paragraph_format\<close>.\<close>

definition force_paragraph_format_step :: "ReportConfig \<Rightarrow> Paragraph \<Rightarrow> error + Paragraph" where
  "force_paragraph_format_step cfg p =
     (let style_name = style_name_lower p;
          scfg =
            (if contains style_name ''heading 1'' then heading1 cfg
             else if contains style_name ''heading 2'' then heading2 cfg
             else if contains style_name ''heading 3'' then heading3 cfg
             else if style_name = ''title'' then title cfg
             else if contains style_name ''caption'' then caption cfg
             else normal cfg)
      in bind (set_paragraph_format (Paragraph.paragraph_format p) scfg) (\<lambda>pf.
           Inr (p \<lparr> Paragraph.paragraph_format := pf \<rparr>)))"

text \<open>\<^verbatim>\<open>_force_paragraph_format(doc)\<close>\<close>

definition force_paragraph_format :: "ReportConfig \<Rightarrow> Document \<Rightarrow> error + Document" where
  "force_paragraph_format cfg doc =
     (let pcfg = processing cfg in
      if \<not> truthy (force_paragraph_format_everywhere pcfg) then Inr doc
      else for_all_paragraphs (force_paragraph_format_step cfg) (include_tables pcfg) doc)"

text \<open>
  The font assignments to one run in \<^verbatim>\<open>_force_run_font\<close>: the name, the four
  attributes of the element that \<^verbatim>\<open>r._r.get_or_add_rPr().get_or_add_rFonts()\<close> returns,
  and the size.
\<close>

definition set_run_font :: "StyleConfig \<Rightarrow> Run \<Rightarrow> Run" where
  "set_run_font scfg r =
     r \<lparr> Run.font :=
       (set_rFonts ((Run.font r) \<lparr> name := StyleConfig.font_name scfg \<rparr>)
          (StyleConfig.font_name scfg))
         \<lparr> size' := Some (Pt (StyleConfig.font_size_pt scfg)) \<rparr> \<rparr>"

text \<open>\<^verbatim>\<open>for r in p.runs\<close>: the runs among the children; the simple fields are not runs.\<close>

fun on_runs :: "(Run \<Rightarrow> Run) \<Rightarrow> PChild list \<Rightarrow> PChild list" where
  "on_runs f [] = []"
| "on_runs f (RunChild r # rest) = RunChild (f r) # on_runs f rest"
| "on_runs f (FldSimple instr txt # rest) = FldSimple instr txt # on_runs f rest"

text \<open>The body of the loop of \<^verbatim>\<open>_force_run_font\<close>.\<close>

definition force_run_font_step :: "ReportConfig \<Rightarrow> Paragraph \<Rightarrow> error + Paragraph" where
  "force_run_font_step cfg p =
     (let style_name = style_name_lower p;
          scfg =
            (if contains style_name ''heading 1'' then heading1 cfg
             else if contains style_name ''heading 2'' then heading2 cfg
             else if contains style_name ''heading 3'' then heading3 cfg
             else if style_name = ''title'' then title cfg
             else if contains style_name ''caption'' then caption cfg
             else normal cfg)
      in Inr (p \<lparr> children := on_runs (set_run_font scfg) (children p) \<rparr>))"

text \<open>\<^verbatim>\<open>_force_run_font(doc)\<close>\<close>

definition force_run_font :: "ReportConfig \<Rightarrow> Document \<Rightarrow> error + Document" where
  "force_run_font cfg doc =
     (let pcfg = processing cfg in
      if \<not> truthy (force_run_font_everywhere pcfg) then Inr doc
      else for_all_paragraphs (force_run_font_step cfg) (include_tables pcfg) doc)"

text \<open>
  The style buckets of the specification, and the classification of a style name as
  the specification words it: a case-insensitive test, in this order, for the substring
  \<^verbatim>\<open>heading 1\<close>, the substring \<^verbatim>\<open>heading 2\<close>, the substring \<^verbatim>\<open>heading 3\<close>, the exact name
  \<^verbatim>\<open>title\<close>, the substring \<^verbatim>\<open>caption\<close>, and otherwise Normal.
\<close>

datatype StyleBucket = Normal | Title | Heading1 | Heading2 | Heading3 | Caption

definition spec_style_bucket :: "string \<Rightarrow> StyleBucket" where
  "spec_style_bucket style_name =
     (if contains (lower style_name) ''heading 1'' then Heading1
      else if contains (lower style_name) ''heading 2'' then Heading2
      else if contains (lower style_name) ''heading 3'' then Heading3
      else if lower style_name = ''title'' then Title
      else if contains (lower style_name) ''caption'' then Caption
      else Normal)"

fun bucket_config :: "ReportConfig \<Rightarrow> StyleBucket \<Rightarrow> StyleConfig" where
  "bucket_config cfg Normal = normal cfg"
| "bucket_config cfg Title = title cfg"
| "bucket_config cfg Heading1 = heading1 cfg"
| "bucket_config cfg Heading2 = heading2 cfg"
| "bucket_config cfg Heading3 = heading3 cfg"
| "bucket_config cfg Caption = caption cfg"

text \<open>The style name that the sweeps classify: \<^verbatim>\<open>Normal\<close> when the paragraph has no style.\<close>

definition assigned_style_name :: "Paragraph \<Rightarrow> string" where
  "assigned_style_name p = (case style p of Some n \<Rightarrow> n | None \<Rightarrow> ''Normal'')"

section \<open>Page numbers\<close>

text \<open>
  \<^verbatim>\<open>_set_section_page_numbering(section, start_at, fmt, restart)\<close>: the element
  \<^verbatim>\<open>w:pgNumType\<close> is found or created, its format is set, and its start attribute is set
  when \<open>restart\<close> holds and removed otherwise.
\<close>

definition set_section_page_numbering :: "Section \<Rightarrow> json \<Rightarrow> json \<Rightarrow> bool \<Rightarrow> error + Section" where
  "set_section_page_numbering section start_value fmt_name restart =
     (let pg = (case pgNumType section of
                  None \<Rightarrow> \<lparr> fmt = None, start = None \<rparr>
                | Some e \<Rightarrow> e)
      in bind (upper_of fmt_name) (\<lambda>key.
           let fmt_val = dict_get PAGE_FMT_MAP key ''decimal'';
               pg1 = pg \<lparr> fmt := Some fmt_val \<rparr>
           in if restart then
                bind (py_int start_value) (\<lambda>n.
                  Inr (section \<lparr> pgNumType := Some (pg1 \<lparr> start := Some (str_of_int n) \<rparr>) \<rparr>))
              else
                Inr (section \<lparr> pgNumType := Some (pg1 \<lparr> start := None \<rparr>) \<rparr>)))"

text \<open>
  \<^verbatim>\<open>s.split("_", 1)\<close>: the string is cut at its first underscore, or is the only element
  when it has none.
\<close>

definition split_once :: "string \<Rightarrow> string list" where
  "split_once s =
     (if CHR ''_'' \<in> set s
      then [takeWhile (\<lambda>c. c \<noteq> CHR ''_'') s, tl (dropWhile (\<lambda>c. c \<noteq> CHR ''_'') s)]
      else [s])"

text \<open>\<^verbatim>\<open>xs[1]\<close>\<close>

definition second :: "'a list \<Rightarrow> error + 'a" where
  "second xs = (case xs of x # y # rest \<Rightarrow> Inr y | _ \<Rightarrow> Inl IndexError)"

text \<open>
  \<^verbatim>\<open>_clear_paragraph(paragraph)\<close> removes every child element of the paragraph element:
  its runs and fields, and its properties element with the style and the format.
\<close>

definition clear_paragraph :: "Paragraph \<Rightarrow> Paragraph" where
  "clear_paragraph p =
     p \<lparr> style := None, Paragraph.paragraph_format := ParagraphFormat_empty, children := [] \<rparr>"

text \<open>\<^verbatim>\<open>_add_simple_field(paragraph, instr)\<close>: a simple field with the placeholder text 1.\<close>

definition add_simple_field :: "Paragraph \<Rightarrow> string \<Rightarrow> Paragraph" where
  "add_simple_field p instr = p \<lparr> children := children p @ [FldSimple instr ''1''] \<rparr>"

text \<open>
  \<^verbatim>\<open>self._split_template(pn.template)\<close> on a configuration value: \<^verbatim>\<open>len\<close> raises
  \<^verbatim>\<open>TypeError\<close> on a value without a length, an empty list or dictionary gives no token,
  and a non-empty one has no \<^verbatim>\<open>startswith\<close>.
\<close>

definition split_template_of :: "json \<Rightarrow> error + string list" where
  "split_template_of x =
     (case x of
        JStr t \<Rightarrow> Inr (split_template t)
      | JList xs \<Rightarrow> if xs = [] then Inr [] else Inl AttributeError
      | JDict kvs \<Rightarrow> if kvs = [] then Inr [] else Inl AttributeError
      | _ \<Rightarrow> Inl TypeError)"

text \<open>
  The run that the page-number loop adds for a literal part of the template:
  \<^verbatim>\<open>para.add_run(part)\<close>, then the font name, the font size and the four attributes of
  \<^verbatim>\<open>rFonts\<close>.
\<close>

definition page_number_run :: "PageNumberConfig \<Rightarrow> string \<Rightarrow> Run" where
  "page_number_run pn part =
     (new_run part) \<lparr> Run.font :=
       set_rFonts
         (Font_empty \<lparr> name := PageNumberConfig.font_name pn,
                        size' := Some (Pt (PageNumberConfig.font_size_pt pn)) \<rparr>)
         (PageNumberConfig.font_name pn) \<rparr>"

text \<open>\<^verbatim>\<open>for part in self._split_template(pn.template)\<close>\<close>

fun add_parts :: "PageNumberConfig \<Rightarrow> string list \<Rightarrow> Paragraph \<Rightarrow> Paragraph" where
  "add_parts pn [] para = para"
| "add_parts pn (part # parts) para =
     add_parts pn parts
       (if part = ''{PAGE}'' then add_simple_field para ''PAGE''
        else if part = ''{NUMPAGES}'' then add_simple_field para ''NUMPAGES''
        else para \<lparr> children := children para @ [RunChild (page_number_run pn part)] \<rparr>)"

text \<open>
  \<^verbatim>\<open>para = hf.paragraphs[0] if hf.paragraphs else hf.add_paragraph()\<close>, and the update of
  that paragraph in the header or footer.
\<close>

definition update_first_paragraph :: "(Paragraph \<Rightarrow> Paragraph) \<Rightarrow> Paragraph list \<Rightarrow> Paragraph list" where
  "update_first_paragraph f ps =
     (case ps of
        [] \<Rightarrow> [f (new_paragraph [])]
      | p # rest \<Rightarrow> f p # rest)"

text \<open>The body of the loop of \<^verbatim>\<open>_apply_page_numbers\<close> for the section with index \<open>idx\<close>.\<close>

definition page_number_section :: "PageNumberConfig \<Rightarrow> nat \<Rightarrow> Section \<Rightarrow> error + Section" where
  "page_number_section pn idx section =
     (let restart = truthy (restart_each_section pn) in
      bind (if idx = 0
            then set_section_page_numbering section (start_at pn) (number_format pn) True
            else set_section_page_numbering section (start_at pn) (number_format pn) restart)
        (\<lambda>s1.
      case position pn of
        JStr pos \<Rightarrow>
          (let target_is_footer = startswith pos ''FOOTER'' 0 in
           bind (second (split_once pos)) (\<lambda>align_key.
             let align = dict_get [(''LEFT'', LEFT), (''CENTER'', CENTER), (''RIGHT'', RIGHT)]
                           align_key CENTER
             in bind (split_template_of (template pn)) (\<lambda>parts.
                  let fill = (\<lambda>para.
                        let cleared = clear_paragraph para;
                            aligned = cleared \<lparr> Paragraph.paragraph_format :=
                              (Paragraph.paragraph_format cleared) \<lparr> alignment := Some align \<rparr> \<rparr>
                        in add_parts pn parts aligned)
                  in if target_is_footer
                     then Inr (s1 \<lparr> footer := update_first_paragraph fill (footer s1) \<rparr>)
                     else Inr (s1 \<lparr> header := update_first_paragraph fill (header s1) \<rparr>))))
      | _ \<Rightarrow> Inl AttributeError))"

text \<open>\<^verbatim>\<open>for idx, section in enumerate(doc.sections)\<close>\<close>

fun for_each_indexed :: "(nat \<Rightarrow> 'a \<Rightarrow> error + 'a) \<Rightarrow> nat \<Rightarrow> 'a list \<Rightarrow> error + 'a list" where
  "for_each_indexed f idx [] = Inr []"
| "for_each_indexed f idx (x # xs) =
     bind (f idx x) (\<lambda>y. bind (for_each_indexed f (idx + 1) xs) (\<lambda>ys. Inr (y # ys)))"

text \<open>\<^verbatim>\<open>_apply_page_numbers(doc)\<close>\<close>

definition apply_page_numbers :: "ReportConfig \<Rightarrow> Document \<Rightarrow> error + Document" where
  "apply_page_numbers cfg doc =
     (let pn = pagenumber cfg in
      if \<not> truthy (enabled pn) then Inr doc
      else bind (for_each_indexed (page_number_section pn) 0 (sections doc)) (\<lambda>ss.
             Inr (doc \<lparr> sections := ss \<rparr>)))"

section \<open>Table-of-contents insertion\<close>

text \<open>
  A paragraph created with a configuration value as its text: a falsy text adds no run,
  a non-empty string is put in a single run, and a truthy value that is not a string is
  not a text that a run can hold.
\<close>

definition paragraph_with_text :: "json \<Rightarrow> error + Paragraph" where
  "paragraph_with_text x =
     (if truthy x then (case x of JStr t \<Rightarrow> Inr (new_paragraph t) | _ \<Rightarrow> Inl TypeError)
      else Inr (new_paragraph []))"

text \<open>
  Where a new first paragraph goes: directly before the first paragraph of the body
  (\<^verbatim>\<open>doc.paragraphs[0].insert_paragraph_before\<close>), or at the end of the body when the body
  has no paragraph (\<^verbatim>\<open>doc.add_paragraph\<close>).
\<close>

fun insert_before_first_paragraph :: "Block list \<Rightarrow> Block list \<Rightarrow> Block list" where
  "insert_before_first_paragraph new [] = new"
| "insert_before_first_paragraph new (BlockP p # bs) = new @ BlockP p # bs"
| "insert_before_first_paragraph new (BlockT t # bs) = BlockT t # insert_before_first_paragraph new bs"

text \<open>\<^verbatim>\<open>xs[0]\<close>\<close>

definition index0 :: "'a list \<Rightarrow> error + 'a" where
  "index0 xs = (case xs of [] \<Rightarrow> Inl IndexError | x # rest \<Rightarrow> Inr x)"

text \<open>\<^verbatim>\<open>p.runs[0].add_break()\<close> on the children of a paragraph that has a run.\<close>

fun add_break_first_run :: "PChild list \<Rightarrow> PChild list" where
  "add_break_first_run [] = []"
| "add_break_first_run (RunChild r # rest) = RunChild (r \<lparr> breaks := breaks r + 1 \<rparr>) # rest"
| "add_break_first_run (FldSimple instr txt # rest) = FldSimple instr txt # add_break_first_run rest"

text \<open>
  The field instruction \<^verbatim>\<open>f'TOC \\o "{tc.heading_levels}" \\h \\z \\u'\<close>; the character
  with code 92 is the backslash and the one with code 34 the double quote. The function
  \<open>str_of\<close> is Python's conversion of the formatted value to a string, a parameter of the
  model.
\<close>

definition toc_instr :: "(json \<Rightarrow> string) \<Rightarrow> json \<Rightarrow> string" where
  "toc_instr str_of levels =
     ''TOC '' @ [char_of (92 :: nat)] @ ''o '' @ [char_of (34 :: nat)] @ str_of levels
       @ [char_of (34 :: nat)] @ '' '' @ [char_of (92 :: nat)] @ ''h ''
       @ [char_of (92 :: nat)] @ ''z '' @ [char_of (92 :: nat)] @ ''u''"

text \<open>
  The three assignments to a run of the title paragraph: \<^verbatim>\<open>run.bold\<close>,
  \<^verbatim>\<open>run.font.size = Pt(tc.title_font_size_pt)\<close> and \<^verbatim>\<open>run.font.name\<close>.
\<close>

definition set_title_run :: "ReportConfig \<Rightarrow> Run \<Rightarrow> error + Run" where
  "set_title_run cfg run =
     (let f1 = (Run.font run) \<lparr> bold := title_bold (toc cfg) \<rparr> in
      bind (Pt_of (title_font_size_pt (toc cfg))) (\<lambda>sz.
        Inr (run \<lparr> Run.font := f1 \<lparr> size' := Some sz,
                                     name := StyleConfig.font_name (normal cfg) \<rparr> \<rparr>)))"

text \<open>\<^verbatim>\<open>for run in p.runs\<close> with a body that may raise.\<close>

fun for_each_run :: "(Run \<Rightarrow> error + Run) \<Rightarrow> PChild list \<Rightarrow> error + PChild list" where
  "for_each_run f [] = Inr []"
| "for_each_run f (RunChild r # rest) =
     bind (f r) (\<lambda>r'. bind (for_each_run f rest) (\<lambda>rest'. Inr (RunChild r' # rest')))"
| "for_each_run f (FldSimple instr txt # rest) =
     bind (for_each_run f rest) (\<lambda>rest'. Inr (FldSimple instr txt # rest'))"

text \<open>
  Lines 326 to 331 of \<^verbatim>\<open>_insert_toc_if_needed\<close>: the title paragraph is created with the
  title text and put into the body, then aligned, and its runs are set. The result is
  the document with the title paragraph, and the title paragraph.
\<close>

definition insert_toc_title :: "ReportConfig \<Rightarrow> Document \<Rightarrow> error + Document \<times> Paragraph" where
  "insert_toc_title cfg doc =
     (let tc = toc cfg in
      bind (paragraph_with_text (TocConfig.title tc)) (\<lambda>p0.
      bind (upper_of (title_alignment tc)) (\<lambda>key.
        let p_aligned = p0 \<lparr> Paragraph.paragraph_format :=
              (Paragraph.paragraph_format p0) \<lparr> alignment := Some (dict_get ALIGN_MAP key CENTER) \<rparr> \<rparr>
        in bind (for_each_run (set_title_run cfg) (children p_aligned)) (\<lambda>rs.
             let p_title = p_aligned \<lparr> children := rs \<rparr> in
             Inr (doc \<lparr> body := insert_before_first_paragraph [BlockP p_title] (body doc) \<rparr>,
                  p_title)))))"

text \<open>
  \<^verbatim>\<open>p.insert_paragraph_after(text)\<close>: a paragraph of the library has the method
  \<^verbatim>\<open>insert_paragraph_before\<close> and no method \<^verbatim>\<open>insert_paragraph_after\<close>, so the call raises
  \<^verbatim>\<open>AttributeError\<close>.
\<close>

definition insert_paragraph_after :: "Paragraph \<Rightarrow> string \<Rightarrow> error + Paragraph" where
  "insert_paragraph_after p t = Inl AttributeError"

text \<open>
  \<^verbatim>\<open>_insert_toc_if_needed(doc)\<close>: the title paragraph, then line 333, the field of the
  second paragraph, line 337, and the break of the third paragraph. The last three
  blocks are the title paragraph and the two paragraphs after it.
\<close>

definition insert_toc_if_needed :: "(json \<Rightarrow> string) \<Rightarrow> ReportConfig \<Rightarrow> Document \<Rightarrow> error + Document" where
  "insert_toc_if_needed str_of cfg doc =
     (let tc = toc cfg in
      if \<not> truthy (insert_toc tc) then Inr doc
      else
        bind (insert_toc_title cfg doc) (\<lambda>(doc1, p_title).
        bind (insert_paragraph_after p_title []) (\<lambda>p_new.
          let p_toc = add_simple_field p_new (toc_instr str_of (heading_levels tc)) in
          bind (insert_paragraph_after p_toc []) (\<lambda>p_break.
          bind (index0 (runs p_break)) (\<lambda>r0.
            Inr (doc \<lparr> body :=
              insert_before_first_paragraph
                [BlockP p_title, BlockP p_toc,
                 BlockP (p_break \<lparr> children := add_break_first_run (children p_break) \<rparr>)]
                (body doc) \<rparr>))))))"

section \<open>Properties of the template tokenizer\<close>

lemma startswith_Cons_Suc [simp]: "startswith (c # cs) n (Suc k) = startswith cs n k"
  by (simp add: startswith_def)

lemma contains_iff: "contains s n \<longleftrightarrow> (\<exists>k. startswith s n k)"
proof (induction s)
  case Nil
  then show ?case by (auto simp: startswith_def)
next
  case (Cons c cs)
  show ?case
  proof
    assume "contains (c # cs) n"
    then consider "startswith (c # cs) n 0" | "contains cs n" by auto
    then show "\<exists>k. startswith (c # cs) n k"
    proof cases
      case 1 then show ?thesis by blast
    next
      case 2
      with Cons obtain k where "startswith cs n k" by blast
      then have "startswith (c # cs) n (Suc k)" by simp
      then show ?thesis by blast
    qed
  next
    assume "\<exists>k. startswith (c # cs) n k"
    then obtain k where k: "startswith (c # cs) n k" by blast
    show "contains (c # cs) n"
    proof (cases k)
      case 0 with k show ?thesis by simp
    next
      case (Suc k')
      with k have "startswith cs n k'" by simp
      with Cons show ?thesis by auto
    qed
  qed
qed

lemma startswith_length:
  "startswith t p i \<Longrightarrow> p \<noteq> [] \<Longrightarrow> i + length p \<le> length t"
proof -
  assume a: "startswith t p i" "p \<noteq> []"
  then have "length (take (length p) (drop i t)) = length p" by (simp add: startswith_def)
  then have "min (length p) (length t - i) = length p" by simp
  moreover have "0 < length p" using a(2) by simp
  ultimately show ?thesis by arith
qed

lemma startswith_decomp:
  "startswith t p i \<Longrightarrow> drop i t = p @ drop (i + length p) t"
proof -
  assume "startswith t p i"
  then have "take (length p) (drop i t) = p" by (simp add: startswith_def)
  then have "drop i t = p @ drop (length p) (drop i t)"
    by (metis append_take_drop_id)
  then show ?thesis by (simp add: add.commute)
qed

lemma slice_decomp: "i \<le> j \<Longrightarrow> drop i t = slice t i j @ drop j t"
proof -
  assume "i \<le> j"
  then have "drop (j - i) (drop i t) = drop j t" by simp
  moreover have "drop i t = take (j - i) (drop i t) @ drop (j - i) (drop i t)"
    by (rule append_take_drop_id [symmetric])
  ultimately show ?thesis unfolding slice_def by metis
qed


lemma split_loop_unfold_PAGE:
  "i < length t \<Longrightarrow> startswith t PAGE i \<Longrightarrow>
   split_loop t i acc = split_loop t (i + length PAGE) (acc @ [PAGE])"
  by (subst split_loop.simps) simp

lemma split_loop_unfold_NUMPAGES:
  "i < length t \<Longrightarrow> \<not> startswith t PAGE i \<Longrightarrow> startswith t NUMPAGES i \<Longrightarrow>
   split_loop t i acc = split_loop t (i + length NUMPAGES) (acc @ [NUMPAGES])"
  by (subst split_loop.simps) simp

lemma split_loop_unfold_literal:
  "i < length t \<Longrightarrow> \<not> startswith t PAGE i \<Longrightarrow> \<not> startswith t NUMPAGES i \<Longrightarrow>
   split_loop t i acc = split_loop t (scan_literal t i) (acc @ [slice t i (scan_literal t i)])"
  by (subst split_loop.simps) (simp add: Let_def)

lemma split_loop_unfold_end: "\<not> i < length t \<Longrightarrow> split_loop t i acc = acc"
  by (subst split_loop.simps) simp

lemma PAGE_nonempty: "PAGE \<noteq> []" by (simp add: PAGE_def)
lemma NUMPAGES_nonempty: "NUMPAGES \<noteq> []" by (simp add: NUMPAGES_def)

lemma concat_split_loop:
  "i \<le> length t \<Longrightarrow> concat (split_loop t i acc) = concat acc @ drop i t"
proof (induction t i acc rule: split_loop.induct)
  case (1 t i acc)
  show ?case
  proof (cases "i < length t")
    case False
    with 1(4) show ?thesis by (simp add: split_loop_unfold_end)
  next
    case lt: True
    show ?thesis
    proof (cases "startswith t PAGE i")
      case True
      have le: "i + length PAGE \<le> length t"
        using startswith_length [OF True PAGE_nonempty] .
      have "concat (split_loop t i acc) = concat (acc @ [PAGE]) @ drop (i + length PAGE) t"
        using 1(1) [OF lt True le] by (simp add: split_loop_unfold_PAGE [OF lt True])
      also have "\<dots> = concat acc @ drop i t"
        using startswith_decomp [OF True] by simp
      finally show ?thesis .
    next
      case nP: False
      show ?thesis
      proof (cases "startswith t NUMPAGES i")
        case True
        have le: "i + length NUMPAGES \<le> length t"
          using startswith_length [OF True NUMPAGES_nonempty] .
        have "concat (split_loop t i acc) = concat (acc @ [NUMPAGES]) @ drop (i + length NUMPAGES) t"
          using 1(2) [OF lt nP True le] by (simp add: split_loop_unfold_NUMPAGES [OF lt nP True])
        also have "\<dots> = concat acc @ drop i t"
          using startswith_decomp [OF True] by simp
        finally show ?thesis .
      next
        case nN: False
        define j where "j = scan_literal t i"
        have le: "j \<le> length t" unfolding j_def using scan_literal_le lt by simp
        have ij: "i \<le> j" unfolding j_def by (rule scan_literal_ge)
        have "concat (split_loop t i acc) = concat (acc @ [slice t i j]) @ drop j t"
          using 1(3) [OF lt nP nN j_def le]
          by (simp add: split_loop_unfold_literal [OF lt nP nN] j_def)
        also have "\<dots> = concat acc @ drop i t"
          using slice_decomp [OF ij, of t] by simp
        finally show ?thesis .
      qed
    qed
  qed
qed

lemma scan_literal_clean:
  "j \<le> k \<Longrightarrow> k < scan_literal t j \<Longrightarrow> \<not> startswith t PAGE k \<and> \<not> startswith t NUMPAGES k"
proof (induction t j rule: scan_literal.induct)
  case (1 t j)
  show ?case
  proof (cases "j < length t \<and> \<not> startswith t PAGE j \<and> \<not> startswith t NUMPAGES j")
    case True
    then have eq: "scan_literal t j = scan_literal t (j + 1)"
      by (subst scan_literal.simps) simp
    show ?thesis
    proof (cases "k = j")
      case True
      with \<open>j < length t \<and> \<not> startswith t PAGE j \<and> \<not> startswith t NUMPAGES j\<close> show ?thesis by simp
    next
      case False
      with 1(2) have "j + 1 \<le> k" by simp
      moreover from 1(3) eq have "k < scan_literal t (j + 1)" by simp
      ultimately show ?thesis using 1(1) True by blast
    qed
  next
    case False
    then have "scan_literal t j = j" by (subst scan_literal.simps) auto
    with 1(2,3) show ?thesis by simp
  qed
qed

lemma startswith_slice:
  assumes "startswith (slice t i j) p k" "p \<noteq> []"
  shows "startswith t p (i + k) \<and> i + k < j"
proof -
  have len: "k + length p \<le> length (slice t i j)"
    using startswith_length [OF assms] .
  then have kl: "k + length p \<le> j - i" by (simp add: slice_def)
  have "take (length p) (drop k (take (j - i) (drop i t))) = p"
    using assms(1) by (simp add: startswith_def slice_def)
  then have "take (length p) (take (j - i - k) (drop (i + k) t)) = p"
    by (simp add: drop_take add.commute)
  moreover have "length p \<le> j - i - k" using kl by simp
  ultimately have "take (length p) (drop (i + k) t) = p"
    by (simp add: min_def)
  moreover have "i + k < j" using kl assms(2) by (cases p) auto
  moreover have "i + k \<le> length t"
  proof -
    have "k + length p \<le> length t - i" using len by (simp add: slice_def)
    moreover have "0 < length p" using assms(2) by simp
    ultimately show ?thesis by arith
  qed
  ultimately show ?thesis by (simp add: startswith_def)
qed

lemma literal_clean:
  "\<not> contains (slice t i (scan_literal t i)) PAGE \<and> \<not> contains (slice t i (scan_literal t i)) NUMPAGES"
proof -
  have "\<not> startswith (slice t i (scan_literal t i)) PAGE k" for k
    using startswith_slice [OF _ PAGE_nonempty, of t i "scan_literal t i" k]
      scan_literal_clean [of i "i + k" t] by auto
  moreover have "\<not> startswith (slice t i (scan_literal t i)) NUMPAGES k" for k
    using startswith_slice [OF _ NUMPAGES_nonempty, of t i "scan_literal t i" k]
      scan_literal_clean [of i "i + k" t] by auto
  ultimately show ?thesis by (simp add: contains_iff)
qed

lemma literal_nonempty:
  "i < length t \<Longrightarrow> \<not> startswith t PAGE i \<Longrightarrow> \<not> startswith t NUMPAGES i \<Longrightarrow>
   slice t i (scan_literal t i) \<noteq> []"
  using scan_literal_gt [of i t] by (auto simp: slice_def)

lemma tokens_split_loop:
  "list_all token_ok acc \<Longrightarrow> list_all token_ok (split_loop t i acc)"
proof (induction t i acc rule: split_loop.induct)
  case (1 t i acc)
  show ?case
  proof (cases "i < length t")
    case False
    with 1(4) show ?thesis by (simp add: split_loop_unfold_end)
  next
    case lt: True
    show ?thesis
    proof (cases "startswith t PAGE i")
      case True
      have "token_ok PAGE" by (simp add: token_ok_def)
      then have "list_all token_ok (acc @ [PAGE])" using 1(4) by simp
      from 1(1) [OF lt True this] show ?thesis
        by (simp add: split_loop_unfold_PAGE [OF lt True])
    next
      case nP: False
      show ?thesis
      proof (cases "startswith t NUMPAGES i")
        case True
        have "token_ok NUMPAGES" by (simp add: token_ok_def)
        then have "list_all token_ok (acc @ [NUMPAGES])" using 1(4) by simp
        from 1(2) [OF lt nP True this] show ?thesis
          by (simp add: split_loop_unfold_NUMPAGES [OF lt nP True])
      next
        case nN: False
        have "token_ok (slice t i (scan_literal t i))"
          using literal_clean [of t i] literal_nonempty [OF lt nP nN]
          by (simp add: token_ok_def)
        then have "list_all token_ok (acc @ [slice t i (scan_literal t i)])"
          using 1(4) by simp
        from 1(3) [OF lt nP nN refl this] show ?thesis
          by (simp add: split_loop_unfold_literal [OF lt nP nN])
      qed
    qed
  qed
qed

lemma scan_literal_all:
  "j \<le> length t \<Longrightarrow> (\<And>k. \<not> startswith t PAGE k \<and> \<not> startswith t NUMPAGES k) \<Longrightarrow>
   scan_literal t j = length t"
proof (induction t j rule: scan_literal.induct)
  case (1 t j)
  show ?case
  proof (cases "j < length t")
    case True
    then have "scan_literal t j = scan_literal t (j + 1)"
      using 1(3) by (subst scan_literal.simps) simp
    moreover have "scan_literal t (j + 1) = length t"
      using 1(1) True 1(3) by simp
    ultimately show ?thesis by simp
  next
    case False
    then have "scan_literal t j = j" by (subst scan_literal.simps) simp
    with False 1(2) show ?thesis by simp
  qed
qed

text \<open>
  C9: for every template string, the tokens returned by the tokenizer, concatenated in
  order, give back the template, and every token is \<^verbatim>\<open>{PAGE}\<close>, \<^verbatim>\<open>{NUMPAGES}\<close>, or a
  non-empty literal that contains neither placeholder as a substring.
\<close>

theorem split_template_concat_tokens:
  "concat (split_template t) = t \<and> list_all token_ok (split_template t)"
  using concat_split_loop [of 0 t "[]"] tokens_split_loop [of "[]" t 0]
  by (simp add: split_template_def)

theorem split_template_concat_tokens_witness:
  "concat (split_template ''Page {PAGE} of {NUMPAGES} - end'') = ''Page {PAGE} of {NUMPAGES} - end''
   \<and> list_all token_ok (split_template ''Page {PAGE} of {NUMPAGES} - end'')"
  using split_template_concat_tokens [of "''Page {PAGE} of {NUMPAGES} - end''"] by simp

text \<open>
  C3, as stated, fails at the empty template: it contains no placeholder, and the loop
  body never runs, so the result is the empty list and not a list of one empty literal.
\<close>

theorem split_template_empty_counterexample:
  "\<not> contains [] PAGE \<and> \<not> contains [] NUMPAGES \<and> split_template [] \<noteq> [[]]"
  by (simp add: split_template_def split_loop_unfold_end PAGE_def NUMPAGES_def)

text \<open>
  C3, amended: for every template string that contains neither \<^verbatim>\<open>{PAGE}\<close> nor \<^verbatim>\<open>{NUMPAGES}\<close>,
  the tokenizer returns exactly one literal token equal to the template when the template
  is not empty, and no token at all when it is empty.
\<close>

theorem split_template_no_placeholder:
  assumes "\<not> contains t PAGE" "\<not> contains t NUMPAGES"
  shows "split_template t = (if t = [] then [] else [t])"
proof (cases "t = []")
  case True
  then show ?thesis by (simp add: split_template_def split_loop_unfold_end)
next
  case False
  have no: "\<not> startswith t PAGE k \<and> \<not> startswith t NUMPAGES k" for k
    using assms by (simp add: contains_iff)
  have lt: "0 < length t" using False by simp
  have sc: "scan_literal t 0 = length t" using scan_literal_all [of 0 t] no by simp
  have "split_loop t 0 [] = split_loop t (length t) [slice t 0 (length t)]"
    using split_loop_unfold_literal [OF lt, of "[]"] no sc by simp
  also have "\<dots> = [t]" by (simp add: split_loop_unfold_end slice_def)
  finally show ?thesis using False by (simp add: split_template_def)
qed

theorem split_template_no_placeholder_witness:
  "\<not> contains ''Trang'' PAGE \<and> \<not> contains ''Trang'' NUMPAGES \<and> split_template ''Trang'' = [''Trang'']"
proof -
  have a: "\<not> contains ''Trang'' PAGE" by code_simp
  have b: "\<not> contains ''Trang'' NUMPAGES" by code_simp
  show ?thesis using a b split_template_no_placeholder [OF a b] by simp
qed

section \<open>Properties of the configuration merge\<close>

lemma deep_merge_dict: "deep_merge a (JDict items) = merge_items a items"
  by (cases items) simp_all

declare deep_merge.simps [simp del]

lemma merge_items_step_dict:
  "map_of out k = Some (JDict sub) \<Longrightarrow> merge_items sub vitems = Inr m \<Longrightarrow>
   merge_items out ((k, JDict vitems) # rest) = merge_items (AList.update k (JDict m) out) rest"
  by (simp add: deep_merge_dict)

lemma merge_items_step_replace:
  "\<not> (\<exists>vitems sub. v = JDict vitems \<and> map_of out k = Some (JDict sub)) \<Longrightarrow>
   merge_items out ((k, v) # rest) = merge_items (AList.update k v out) rest"
  by (cases v; cases "map_of out k") (auto split: json.splits)

lemma merge_items_total: "\<exists>m. merge_items out its = Inr m"
proof (induction its arbitrary: out
    rule: measure_induct_rule [where f = "size_list (size_prod (\<lambda>_. 0) size)"])
  case (less its)
  show ?case
  proof (cases its)
    case Nil
    then show ?thesis by simp
  next
    case (Cons kv rest)
    obtain k v where kv: "kv = (k, v)" by (cases kv)
    have rest: "size_list (size_prod (\<lambda>_. 0) size) rest < size_list (size_prod (\<lambda>_. 0) size) its"
      using Cons by simp
    show ?thesis
    proof (cases "\<exists>vitems sub. v = JDict vitems \<and> map_of out k = Some (JDict sub)")
      case True
      then obtain vitems sub where vs: "v = JDict vitems" "map_of out k = Some (JDict sub)" by blast
      have "size_list (size_prod (\<lambda>_. 0) size) vitems < size_list (size_prod (\<lambda>_. 0) size) its"
        using Cons kv vs by simp
      from less.IH [OF this] obtain m where m: "merge_items sub vitems = Inr m" by blast
      from less.IH [OF rest] obtain m' where "merge_items (AList.update k (JDict m) out) rest = Inr m'"
        by blast
      then show ?thesis using merge_items_step_dict [OF vs(2) m] Cons kv vs by simp
    next
      case False
      from less.IH [OF rest] obtain m' where "merge_items (AList.update k v out) rest = Inr m'"
        by blast
      then show ?thesis using merge_items_step_replace [OF False] Cons kv by simp
    qed
  qed
qed

lemma merge_items_Cons:
  "merge_items out ((k, v) # rest) = merge_items (AList.update k (stored out k v) out) rest"
proof (cases "\<exists>vitems sub. v = JDict vitems \<and> map_of out k = Some (JDict sub)")
  case True
  then obtain vitems sub where vs: "v = JDict vitems" "map_of out k = Some (JDict sub)" by blast
  obtain m where m: "merge_items sub vitems = Inr m" using merge_items_total by blast
  have "stored out k v = JDict m" using vs m by (simp add: stored_def deep_merge_dict)
  then show ?thesis using merge_items_step_dict [OF vs(2) m] vs by simp
next
  case False
  then have "stored out k v = v"
    by (cases v; cases "map_of out k") (auto simp: stored_def split: json.splits)
  then show ?thesis using merge_items_step_replace [OF False] by simp
qed

declare merge_items.simps(2) [simp del]

lemma stored_leaf: "(\<And>sub. ov \<noteq> JDict sub) \<Longrightarrow> map_of out k = Some ov \<Longrightarrow> stored out k v = v"
  by (cases v; cases ov) (auto simp: stored_def)

lemma stored_absent: "map_of out k = None \<Longrightarrow> stored out k v = v"
  by (cases v) (auto simp: stored_def)

lemma stored_dict:
  "map_of out k = Some (JDict sub) \<Longrightarrow> merge_items sub vitems = Inr m \<Longrightarrow>
   stored out k (JDict vitems) = JDict m"
  by (simp add: stored_def deep_merge_dict)

lemma stored_cong: "map_of out k = map_of out' k \<Longrightarrow> stored out k v = stored out' k v"
  by (simp add: stored_def)

lemma merge_items_absent:
  "merge_items out its = Inr m \<Longrightarrow> k \<notin> fst ` set its \<Longrightarrow> map_of m k = map_of out k"
proof (induction its arbitrary: out)
  case Nil
  then show ?case by simp
next
  case (Cons kv rest)
  obtain k' v where kv: "kv = (k', v)" by (cases kv)
  have ne: "k \<noteq> k'" using Cons.prems(2) kv by auto
  have "merge_items (AList.update k' (stored out k' v) out) rest = Inr m"
    using Cons.prems(1) kv by (simp add: merge_items_Cons)
  from Cons.IH [OF this] Cons.prems(2)
  have "map_of m k = map_of (AList.update k' (stored out k' v) out) k" by simp
  then show ?case using ne by (simp add: update_conv')
qed


text \<open>
  C7: deep-merging the empty mapping over a mapping, in particular over the default
  configuration mapping, yields exactly that mapping; and for every partial mapping the
  merge returns a mapping that has, at every key absent from the partial mapping, the
  value the defaults have there.
\<close>

theorem deep_merge_defaulting:
  "deep_merge a (JDict []) = Inr a \<and>
   (\<exists>m. deep_merge a (JDict b) = Inr m \<and> (\<forall>k. k \<notin> fst ` set b \<longrightarrow> map_of m k = map_of a k))"
proof -
  obtain m where m: "merge_items a b = Inr m" using merge_items_total by blast
  then have "\<forall>k. k \<notin> fst ` set b \<longrightarrow> map_of m k = map_of a k"
    using merge_items_absent by blast
  with m show ?thesis by (simp add: deep_merge_dict)
qed

theorem deep_merge_defaulting_witness:
  "deep_merge (cfg_to_dict ReportConfig_default) (JDict []) = Inr (cfg_to_dict ReportConfig_default) \<and>
   (\<exists>m. deep_merge (cfg_to_dict ReportConfig_default) (JDict [(''toc'', JDict [(''insert_toc'', JBool True)])]) = Inr m
      \<and> map_of m ''normal'' = map_of (cfg_to_dict ReportConfig_default) ''normal'')"
  using deep_merge_defaulting [of "cfg_to_dict ReportConfig_default"
      "[(''toc'', JDict [(''insert_toc'', JBool True)])]"]
  by auto

section \<open>Round trip of a configuration through JSON\<close>

lemma update_append_fresh:
  "k \<notin> fst ` set pre \<Longrightarrow> AList.update k v (pre @ (k, ov) # r) = pre @ (k, v) # r"
  by (induction pre) auto

lemma map_of_append_fresh:
  "k \<notin> fst ` set pre \<Longrightarrow> map_of (pre @ (k, ov) # r) k = Some ov"
  by (induction pre) auto

lemma stored_absorbs: "absorbs ov v \<Longrightarrow> map_of out k = Some ov \<Longrightarrow> stored out k v = v"
  by (cases v; cases ov) (auto simp: absorbs_def stored_def)

lemma merge_items_overwrite:
  "list_all2 overwritten old its \<Longrightarrow> distinct (map fst pre @ map fst its) \<Longrightarrow>
   merge_items (pre @ old) its = Inr (pre @ its)"
proof (induction old its arbitrary: pre rule: list_all2_induct)
  case Nil
  then show ?case by simp
next
  case (Cons x xs y ys)
  obtain k ov where x: "x = (k, ov)" by (cases x)
  obtain k' v where y: "y = (k', v)" by (cases y)
  from Cons.hyps(1) x y have kk: "k' = k"
    and st: "\<And>out. map_of out k = Some ov \<Longrightarrow> stored out k v = v"
    by (auto simp: overwritten_def stored_absorbs)
  have fresh: "k \<notin> fst ` set pre" using Cons.prems y kk by auto
  have "stored (pre @ (k, ov) # xs) k v = v"
    using st map_of_append_fresh [OF fresh] by simp
  then have "merge_items (pre @ x # xs) (y # ys) = merge_items (pre @ (k, v) # xs) ys"
    using x y kk update_append_fresh [OF fresh] by (simp add: merge_items_Cons)
  also have "\<dots> = merge_items ((pre @ [(k, v)]) @ xs) ys" by simp
  also have "\<dots> = Inr ((pre @ [(k, v)]) @ ys)"
    using Cons.prems y kk by (intro Cons.IH) auto
  finally show ?case using y kk by simp
qed

lemma overwritten_leaf: "\<forall>sub. ov \<noteq> JDict sub \<Longrightarrow> overwritten (k, ov) (k, v)"
  by (cases v; cases ov) (auto simp: overwritten_def absorbs_def)

lemma overwritten_dict:
  "merge_items sub vitems = Inr vitems \<Longrightarrow> overwritten (k, JDict sub) (k, JDict vitems)"
  by (simp add: overwritten_def absorbs_def deep_merge_dict)

lemma merge_style:
  "\<forall>x \<in> set (map snd (style_to_dict d)). \<forall>sub. x \<noteq> JDict sub \<Longrightarrow>
   merge_items (style_to_dict d) (style_to_dict s) = Inr (style_to_dict s)"
  using merge_items_overwrite [of "style_to_dict d" "style_to_dict s" "[]"]
  by (simp add: style_to_dict_def overwritten_leaf)

lemma merge_pagesetup:
  "merge_items (pagesetup_to_dict PageSetupConfig_default) (pagesetup_to_dict s) = Inr (pagesetup_to_dict s)"
  using merge_items_overwrite [of "pagesetup_to_dict PageSetupConfig_default" "pagesetup_to_dict s" "[]"]
  by (simp add: pagesetup_to_dict_def PageSetupConfig_default_def overwritten_leaf)

lemma merge_pagenumber:
  "merge_items (pagenumber_to_dict PageNumberConfig_default) (pagenumber_to_dict s) = Inr (pagenumber_to_dict s)"
  using merge_items_overwrite [of "pagenumber_to_dict PageNumberConfig_default" "pagenumber_to_dict s" "[]"]
  by (simp add: pagenumber_to_dict_def PageNumberConfig_default_def overwritten_leaf)

lemma merge_toc:
  "merge_items (toc_to_dict TocConfig_default) (toc_to_dict s) = Inr (toc_to_dict s)"
  using merge_items_overwrite [of "toc_to_dict TocConfig_default" "toc_to_dict s" "[]"]
  by (simp add: toc_to_dict_def TocConfig_default_def overwritten_leaf)

lemma merge_processing:
  "merge_items (processing_to_dict ProcessingConfig_default) (processing_to_dict s) = Inr (processing_to_dict s)"
  using merge_items_overwrite [of "processing_to_dict ProcessingConfig_default" "processing_to_dict s" "[]"]
  by (simp add: processing_to_dict_def ProcessingConfig_default_def overwritten_leaf)

lemma default_styles_leaves:
  "\<forall>x \<in> set (map snd (style_to_dict (normal ReportConfig_default))). \<forall>sub. x \<noteq> JDict sub"
  "\<forall>x \<in> set (map snd (style_to_dict (title ReportConfig_default))). \<forall>sub. x \<noteq> JDict sub"
  "\<forall>x \<in> set (map snd (style_to_dict (heading1 ReportConfig_default))). \<forall>sub. x \<noteq> JDict sub"
  "\<forall>x \<in> set (map snd (style_to_dict (heading2 ReportConfig_default))). \<forall>sub. x \<noteq> JDict sub"
  "\<forall>x \<in> set (map snd (style_to_dict (heading3 ReportConfig_default))). \<forall>sub. x \<noteq> JDict sub"
  "\<forall>x \<in> set (map snd (style_to_dict (caption ReportConfig_default))). \<forall>sub. x \<noteq> JDict sub"
  by (simp_all add: ReportConfig_default_def StyleConfig_default_def style_to_dict_def)

lemma default_sections:
  "pagesetup ReportConfig_default = PageSetupConfig_default"
  "pagenumber ReportConfig_default = PageNumberConfig_default"
  "toc ReportConfig_default = TocConfig_default"
  "processing ReportConfig_default = ProcessingConfig_default"
  by (simp_all add: ReportConfig_default_def)

lemma merge_cfg:
  "merge_items (cfg_to_dict ReportConfig_default) (cfg_to_dict cfg) = Inr (cfg_to_dict cfg)"
proof -
  have "list_all2 overwritten (cfg_to_dict ReportConfig_default) (cfg_to_dict cfg)"
    unfolding cfg_to_dict_def
    by (simp add: overwritten_dict merge_style default_styles_leaves default_sections
        merge_pagesetup merge_pagenumber merge_toc merge_processing)
  moreover have "distinct (map fst (cfg_to_dict cfg))" by (simp add: cfg_to_dict_def)
  ultimately show ?thesis
    using merge_items_overwrite [of "cfg_to_dict ReportConfig_default" "cfg_to_dict cfg" "[]"]
    by simp
qed

lemma build_style_to_dict: "build_style (JDict (style_to_dict s)) = Inr s"
  by (simp add: build_style_def style_to_dict_def unexpected_keyword_def StyleConfig_fields_def
      kwarg_def)

lemma build_pagesetup_to_dict: "build_pagesetup (JDict (pagesetup_to_dict s)) = Inr s"
  by (simp add: build_pagesetup_def pagesetup_to_dict_def unexpected_keyword_def
      PageSetupConfig_fields_def kwarg_def)

lemma build_pagenumber_to_dict: "build_pagenumber (JDict (pagenumber_to_dict s)) = Inr s"
  by (simp add: build_pagenumber_def pagenumber_to_dict_def unexpected_keyword_def
      PageNumberConfig_fields_def kwarg_def)

lemma build_toc_to_dict: "build_toc (JDict (toc_to_dict s)) = Inr s"
  by (simp add: build_toc_def toc_to_dict_def unexpected_keyword_def TocConfig_fields_def kwarg_def)

lemma build_processing_to_dict: "build_processing (JDict (processing_to_dict s)) = Inr s"
  by (simp add: build_processing_def processing_to_dict_def unexpected_keyword_def
      ProcessingConfig_fields_def kwarg_def)

lemma cfg_from_dict_to_dict: "cfg_from_dict (JDict (cfg_to_dict cfg)) = Inr cfg"
proof -
  have m: "deep_merge (cfg_to_dict ReportConfig_default) (JDict (cfg_to_dict cfg)) = Inr (cfg_to_dict cfg)"
    by (simp add: deep_merge_dict merge_cfg)
  have g: "getitem (cfg_to_dict cfg) ''normal'' = Inr (JDict (style_to_dict (normal cfg)))"
    "getitem (cfg_to_dict cfg) ''title'' = Inr (JDict (style_to_dict (title cfg)))"
    "getitem (cfg_to_dict cfg) ''heading1'' = Inr (JDict (style_to_dict (heading1 cfg)))"
    "getitem (cfg_to_dict cfg) ''heading2'' = Inr (JDict (style_to_dict (heading2 cfg)))"
    "getitem (cfg_to_dict cfg) ''heading3'' = Inr (JDict (style_to_dict (heading3 cfg)))"
    "getitem (cfg_to_dict cfg) ''caption'' = Inr (JDict (style_to_dict (caption cfg)))"
    "getitem (cfg_to_dict cfg) ''pagesetup'' = Inr (JDict (pagesetup_to_dict (pagesetup cfg)))"
    "getitem (cfg_to_dict cfg) ''pagenumber'' = Inr (JDict (pagenumber_to_dict (pagenumber cfg)))"
    "getitem (cfg_to_dict cfg) ''toc'' = Inr (JDict (toc_to_dict (toc cfg)))"
    "getitem (cfg_to_dict cfg) ''processing'' = Inr (JDict (processing_to_dict (processing cfg)))"
    by (simp_all add: getitem_def cfg_to_dict_def)
  show ?thesis
    unfolding cfg_from_dict_def m
    by (simp add: bind_def g build_style_to_dict build_pagesetup_to_dict build_pagenumber_to_dict
        build_toc_to_dict build_processing_to_dict)
qed


text \<open>
  C1: for every configuration, serialising it with \<^verbatim>\<open>save_config_json_bytes\<close> and
  deserialising the bytes with \<^verbatim>\<open>load_config_json_bytes\<close> yields the configuration
  itself. The hypothesis is the contract of the JSON library on the dictionary that
  \<^verbatim>\<open>asdict\<close> produces: \<^verbatim>\<open>json.loads\<close> reads back what \<^verbatim>\<open>json.dumps\<close> wrote, which holds
  for the values of a valid configuration (strings, booleans, integers, finite floats
  and \<^verbatim>\<open>None\<close>).
\<close>

theorem config_json_roundtrip:
  assumes "loads (dumps (JDict (cfg_to_dict cfg))) = Inr (JDict (cfg_to_dict cfg))"
  shows "load_config_json_bytes loads (save_config_json_bytes dumps cfg) = Inr cfg"
  using assms
  by (simp add: load_config_json_bytes_def save_config_json_bytes_def bind_def cfg_from_dict_to_dict)

theorem config_json_roundtrip_witness:
  "Inr (id (JDict (cfg_to_dict ReportConfig_default))) = (Inr (JDict (cfg_to_dict ReportConfig_default)) :: error + json) \<and>
   load_config_json_bytes Inr (save_config_json_bytes id ReportConfig_default) = Inr ReportConfig_default"
  using config_json_roundtrip [of Inr id ReportConfig_default] by simp

section \<open>Unknown keys in a loaded configuration\<close>

lemma bind_Inr: "bind (Inr x) f = f x"
  by (simp add: bind_def)

lemma bind_Inl: "bind (Inl e) f = Inl e"
  by (simp add: bind_def)

lemma merge_items_append:
  "merge_items out (xs @ ys) = bind (merge_items out xs) (\<lambda>m. merge_items m ys)"
proof (induction xs arbitrary: out)
  case Nil
  then show ?case by (simp add: bind_def)
next
  case (Cons kv xs)
  obtain k v where kv: "kv = (k, v)" by (cases kv)
  show ?case using Cons.IH by (simp add: kv merge_items_Cons)
qed

lemma merge_items_dom:
  "merge_items out its = Inr m \<Longrightarrow> fst ` set m = fst ` set out \<union> fst ` set its"
proof (induction its arbitrary: out)
  case Nil
  then show ?case by simp
next
  case (Cons kv rest)
  obtain k v where kv: "kv = (k, v)" by (cases kv)
  have "merge_items (AList.update k (stored out k v) out) rest = Inr m"
    using Cons.prems kv by (simp add: merge_items_Cons)
  from Cons.IH [OF this]
  have "fst ` set m = insert k (fst ` set out) \<union> fst ` set rest"
    by (simp add: dom_update)
  then show ?case by (auto simp: kv)
qed

lemma merge_items_restrict:
  "\<forall>k \<in> S. map_of out k = map_of out' k \<Longrightarrow> merge_items out its = Inr m \<Longrightarrow>
   merge_items out' (filter (\<lambda>kv. fst kv \<in> S) its) = Inr m' \<Longrightarrow>
   \<forall>k \<in> S. map_of m k = map_of m' k"
proof (induction its arbitrary: out out')
  case Nil
  then show ?case by simp
next
  case (Cons kv rest)
  obtain k v where kv: "kv = (k, v)" by (cases kv)
  have step: "merge_items (AList.update k (stored out k v) out) rest = Inr m"
    using Cons.prems(2) kv by (simp add: merge_items_Cons)
  show ?case
  proof (cases "k \<in> S")
    case True
    have eq: "stored out k v = stored out' k v"
      using Cons.prems(1) True by (intro stored_cong) simp
    have step': "merge_items (AList.update k (stored out' k v) out') (filter (\<lambda>kv. fst kv \<in> S) rest) = Inr m'"
      using Cons.prems(3) kv True by (simp add: merge_items_Cons)
    have "\<forall>j \<in> S. map_of (AList.update k (stored out k v) out) j
        = map_of (AList.update k (stored out' k v) out') j"
      using Cons.prems(1) eq by (simp add: update_conv')
    from Cons.IH [OF this step step'] show ?thesis .
  next
    case False
    have step': "merge_items out' (filter (\<lambda>kv. fst kv \<in> S) rest) = Inr m'"
      using Cons.prems(3) kv False by simp
    have "\<forall>j \<in> S. map_of (AList.update k (stored out k v) out) j = map_of out' j"
      using Cons.prems(1) False by (auto simp: update_conv')
    from Cons.IH [OF this step step'] show ?thesis .
  qed
qed

lemma cfg_from_dict_cong:
  assumes "deep_merge (cfg_to_dict ReportConfig_default) d = Inr m"
    and "deep_merge (cfg_to_dict ReportConfig_default) d' = Inr m'"
    and "\<forall>k \<in> set ReportConfig_fields. map_of m k = map_of m' k"
  shows "cfg_from_dict d = cfg_from_dict d'"
proof -
  have "getitem m k = getitem m' k" if "k \<in> set ReportConfig_fields" for k
    using assms(3) that by (simp add: getitem_def)
  then have g: "getitem m ''normal'' = getitem m' ''normal''"
    "getitem m ''title'' = getitem m' ''title''"
    "getitem m ''heading1'' = getitem m' ''heading1''"
    "getitem m ''heading2'' = getitem m' ''heading2''"
    "getitem m ''heading3'' = getitem m' ''heading3''"
    "getitem m ''caption'' = getitem m' ''caption''"
    "getitem m ''pagesetup'' = getitem m' ''pagesetup''"
    "getitem m ''pagenumber'' = getitem m' ''pagenumber''"
    "getitem m ''toc'' = getitem m' ''toc''"
    "getitem m ''processing'' = getitem m' ''processing''"
    by (simp_all add: ReportConfig_fields_def)
  show ?thesis
    unfolding cfg_from_dict_def assms(1) assms(2) bind_Inr g ..
qed

lemma cfg_from_dict_known_items:
  "cfg_from_dict (JDict its) = cfg_from_dict (JDict (known_items its))"
proof -
  obtain m where m: "merge_items (cfg_to_dict ReportConfig_default) its = Inr m"
    using merge_items_total by blast
  obtain m' where m': "merge_items (cfg_to_dict ReportConfig_default) (known_items its) = Inr m'"
    using merge_items_total by blast
  have "\<forall>k \<in> set ReportConfig_fields. map_of m k = map_of m' k"
    using merge_items_restrict [OF _ m m' [unfolded known_items_def]] by simp
  then show ?thesis
    using m m' by (intro cfg_from_dict_cong) (simp_all add: deep_merge_dict)
qed

lemma merge_items_carried:
  assumes "merge_items out its = Inr m" "distinct (map fst its)" "(k, v) \<in> set its"
    "map_of out k = None"
  shows "map_of m k = Some v"
proof -
  from assms(3) obtain pre post where sp: "its = pre @ (k, v) # post"
    by (meson split_list)
  have kpre: "k \<notin> fst ` set pre" and kpost: "k \<notin> fst ` set post"
    using assms(2) sp by auto
  obtain m1 where m1: "merge_items out pre = Inr m1" using merge_items_total by blast
  have none: "map_of m1 k = None" using merge_items_absent [OF m1 kpre] assms(4) by simp
  have "merge_items (AList.update k v m1) post = Inr m"
    using assms(1) sp m1 none by (simp add: merge_items_append bind_def merge_items_Cons stored_absent)
  from merge_items_absent [OF this kpost] show ?thesis by (simp add: update_conv')
qed

lemma build_style_error: "build_style x = Inl e \<Longrightarrow> e = TypeError"
  by (auto simp: build_style_def split: json.splits if_splits)

lemma build_pagesetup_error: "build_pagesetup x = Inl e \<Longrightarrow> e = TypeError"
  by (auto simp: build_pagesetup_def split: json.splits if_splits)

lemma build_pagenumber_error: "build_pagenumber x = Inl e \<Longrightarrow> e = TypeError"
  by (auto simp: build_pagenumber_def split: json.splits if_splits)

lemma build_toc_error: "build_toc x = Inl e \<Longrightarrow> e = TypeError"
  by (auto simp: build_toc_def split: json.splits if_splits)

lemma build_processing_error: "build_processing x = Inl e \<Longrightarrow> e = TypeError"
  by (auto simp: build_processing_def split: json.splits if_splits)

lemma build_style_unexpected:
  "k \<in> fst ` set kw \<Longrightarrow> k \<notin> set StyleConfig_fields \<Longrightarrow> build_style (JDict kw) = Inl TypeError"
  by (auto simp: build_style_def unexpected_keyword_def)

lemma build_pagesetup_unexpected:
  "k \<in> fst ` set kw \<Longrightarrow> k \<notin> set PageSetupConfig_fields \<Longrightarrow>
   build_pagesetup (JDict kw) = Inl TypeError"
  by (auto simp: build_pagesetup_def unexpected_keyword_def)

lemma build_pagenumber_unexpected:
  "k \<in> fst ` set kw \<Longrightarrow> k \<notin> set PageNumberConfig_fields \<Longrightarrow>
   build_pagenumber (JDict kw) = Inl TypeError"
  by (auto simp: build_pagenumber_def unexpected_keyword_def)

lemma build_toc_unexpected:
  "k \<in> fst ` set kw \<Longrightarrow> k \<notin> set TocConfig_fields \<Longrightarrow> build_toc (JDict kw) = Inl TypeError"
  by (auto simp: build_toc_def unexpected_keyword_def)

lemma build_processing_unexpected:
  "k \<in> fst ` set kw \<Longrightarrow> k \<notin> set ProcessingConfig_fields \<Longrightarrow>
   build_processing (JDict kw) = Inl TypeError"
  by (auto simp: build_processing_def unexpected_keyword_def)

text \<open>The merged value of a section that the partial mapping overrides with a dictionary.\<close>

lemma merge_items_section:
  assumes "merge_items out its = Inr m" "distinct (map fst its)" "(s, JDict inner) \<in> set its"
    "map_of out s = Some (JDict sub)"
  shows "\<exists>msec. map_of m s = Some (JDict msec) \<and> fst ` set inner \<subseteq> fst ` set msec"
proof -
  from assms(3) obtain pre post where sp: "its = pre @ (s, JDict inner) # post"
    by (meson split_list)
  have kpre: "s \<notin> fst ` set pre" and kpost: "s \<notin> fst ` set post"
    using assms(2) sp by auto
  obtain m1 where m1: "merge_items out pre = Inr m1" using merge_items_total by blast
  have sub: "map_of m1 s = Some (JDict sub)" using merge_items_absent [OF m1 kpre] assms(4) by simp
  obtain msec where msec: "merge_items sub inner = Inr msec" using merge_items_total by blast
  have st: "stored m1 s (JDict inner) = JDict msec" using stored_dict [OF sub msec] .
  have "merge_items (AList.update s (JDict msec) m1) post = Inr m"
    using assms(1) sp m1 st by (simp add: merge_items_append bind_def merge_items_Cons)
  from merge_items_absent [OF this kpost]
  have "map_of m s = Some (JDict msec)" by (simp add: update_conv')
  moreover have "fst ` set inner \<subseteq> fst ` set msec" using merge_items_dom [OF msec] by simp
  ultimately show ?thesis by blast
qed

lemma getitem_merged:
  assumes "merge_items out its = Inr m" "map_of out k = Some x"
  shows "\<exists>y. getitem m k = Inr y"
proof -
  have "k \<in> fst ` set out" using assms(2) by (metis map_of_eq_None_iff option.distinct(1))
  then have "k \<in> fst ` set m" using merge_items_dom [OF assms(1)] by simp
  then obtain y where "map_of m k = Some y"
    by (metis map_of_eq_None_iff not_None_eq)
  then show ?thesis by (simp add: getitem_def)
qed


lemma bind_TypeError:
  "(\<And>e. r = Inl e \<Longrightarrow> e = TypeError) \<Longrightarrow> (\<And>v. f v = Inl TypeError) \<Longrightarrow>
   bind r f = Inl TypeError"
  by (cases r) (auto simp: bind_def)

lemma default_section_dict:
  "s \<in> set ReportConfig_fields \<Longrightarrow> \<exists>sub. map_of (cfg_to_dict ReportConfig_default) s = Some (JDict sub)"
  by (auto simp: ReportConfig_fields_def cfg_to_dict_def)

lemma cfg_from_dict_unknown_nested:
  assumes d: "distinct (map fst its)" and mem: "(s, JDict inner) \<in> set its"
    and s: "s \<in> set ReportConfig_fields" and k: "k \<in> fst ` set inner" "k \<notin> set (section_fields s)"
  shows "cfg_from_dict (JDict its) = Inl TypeError"
proof -
  let ?D = "cfg_to_dict ReportConfig_default"
  obtain m where m: "merge_items ?D its = Inr m" using merge_items_total by blast
  then have dm: "deep_merge ?D (JDict its) = Inr m" by (simp add: deep_merge_dict)
  obtain sub where sub: "map_of ?D s = Some (JDict sub)" using default_section_dict [OF s] by blast
  obtain msec where msec: "map_of m s = Some (JDict msec)" "fst ` set inner \<subseteq> fst ` set msec"
    using merge_items_section [OF m d mem sub] by blast
  have gs: "getitem m s = Inr (JDict msec)" using msec(1) by (simp add: getitem_def)
  have kin: "k \<in> fst ` set msec" using k(1) msec(2) by blast
  have ex: "\<exists>y. getitem m key = Inr y" if "key \<in> set ReportConfig_fields" for key
    using default_section_dict [OF that] getitem_merged [OF m] by blast
  have inf: "''normal'' \<in> set ReportConfig_fields"
    "''title'' \<in> set ReportConfig_fields"
    "''heading1'' \<in> set ReportConfig_fields"
    "''heading2'' \<in> set ReportConfig_fields"
    "''heading3'' \<in> set ReportConfig_fields"
    "''caption'' \<in> set ReportConfig_fields"
    "''pagesetup'' \<in> set ReportConfig_fields"
    "''pagenumber'' \<in> set ReportConfig_fields"
    "''toc'' \<in> set ReportConfig_fields"
    "''processing'' \<in> set ReportConfig_fields"
    by (simp_all add: ReportConfig_fields_def)
  obtain y1 where y1: "getitem m ''normal'' = Inr y1" using ex [OF inf(1)] by blast
  obtain y2 where y2: "getitem m ''title'' = Inr y2" using ex [OF inf(2)] by blast
  obtain y3 where y3: "getitem m ''heading1'' = Inr y3" using ex [OF inf(3)] by blast
  obtain y4 where y4: "getitem m ''heading2'' = Inr y4" using ex [OF inf(4)] by blast
  obtain y5 where y5: "getitem m ''heading3'' = Inr y5" using ex [OF inf(5)] by blast
  obtain y6 where y6: "getitem m ''caption'' = Inr y6" using ex [OF inf(6)] by blast
  obtain y7 where y7: "getitem m ''pagesetup'' = Inr y7" using ex [OF inf(7)] by blast
  obtain y8 where y8: "getitem m ''pagenumber'' = Inr y8" using ex [OF inf(8)] by blast
  obtain y9 where y9: "getitem m ''toc'' = Inr y9" using ex [OF inf(9)] by blast
  obtain y10 where y10: "getitem m ''processing'' = Inr y10" using ex [OF inf(10)] by blast
  note ys = y1 y2 y3 y4 y5 y6 y7 y8 y9 y10
  note errs = build_style_error build_pagesetup_error build_pagenumber_error build_toc_error
    build_processing_error
  have eq: "cfg_from_dict (JDict its) =
     bind (build_style y1) (\<lambda>v_normal.
     bind (build_style y2) (\<lambda>v_title.
     bind (build_style y3) (\<lambda>v_heading1.
     bind (build_style y4) (\<lambda>v_heading2.
     bind (build_style y5) (\<lambda>v_heading3.
     bind (build_style y6) (\<lambda>v_caption.
     bind (build_pagesetup y7) (\<lambda>v_pagesetup.
     bind (build_pagenumber y8) (\<lambda>v_pagenumber.
     bind (build_toc y9) (\<lambda>v_toc.
     bind (build_processing y10) (\<lambda>v_processing.
     Inr \<lparr> normal = v_normal, title = v_title, heading1 = v_heading1, heading2 = v_heading2,
       heading3 = v_heading3, caption = v_caption, pagesetup = v_pagesetup,
       pagenumber = v_pagenumber, toc = v_toc, processing = v_processing \<rparr>))))))))))"
    unfolding cfg_from_dict_def dm bind_Inr ys ..
  have "s = ''normal'' \<or> s = ''title'' \<or> s = ''heading1'' \<or> s = ''heading2''
    \<or> s = ''heading3'' \<or> s = ''caption'' \<or> s = ''pagesetup'' \<or> s = ''pagenumber''
    \<or> s = ''toc'' \<or> s = ''processing''"
    using s by (simp add: ReportConfig_fields_def)
  then show ?thesis
  proof (elim disjE)
    assume "s = ''normal''"
    then have f: "build_style y1 = Inl TypeError"
      using gs y1 k(2) kin build_style_unexpected [of k msec] by (simp add: section_fields_def)
    show ?thesis unfolding eq f bind_Inl
      by (intro bind_TypeError refl; erule errs)
  next
    assume "s = ''title''"
    then have f: "build_style y2 = Inl TypeError"
      using gs y2 k(2) kin build_style_unexpected [of k msec] by (simp add: section_fields_def)
    show ?thesis unfolding eq f bind_Inl
      by (intro bind_TypeError refl; erule errs)
  next
    assume "s = ''heading1''"
    then have f: "build_style y3 = Inl TypeError"
      using gs y3 k(2) kin build_style_unexpected [of k msec] by (simp add: section_fields_def)
    show ?thesis unfolding eq f bind_Inl
      by (intro bind_TypeError refl; erule errs)
  next
    assume "s = ''heading2''"
    then have f: "build_style y4 = Inl TypeError"
      using gs y4 k(2) kin build_style_unexpected [of k msec] by (simp add: section_fields_def)
    show ?thesis unfolding eq f bind_Inl
      by (intro bind_TypeError refl; erule errs)
  next
    assume "s = ''heading3''"
    then have f: "build_style y5 = Inl TypeError"
      using gs y5 k(2) kin build_style_unexpected [of k msec] by (simp add: section_fields_def)
    show ?thesis unfolding eq f bind_Inl
      by (intro bind_TypeError refl; erule errs)
  next
    assume "s = ''caption''"
    then have f: "build_style y6 = Inl TypeError"
      using gs y6 k(2) kin build_style_unexpected [of k msec] by (simp add: section_fields_def)
    show ?thesis unfolding eq f bind_Inl
      by (intro bind_TypeError refl; erule errs)
  next
    assume "s = ''pagesetup''"
    then have f: "build_pagesetup y7 = Inl TypeError"
      using gs y7 k(2) kin build_pagesetup_unexpected [of k msec] by (simp add: section_fields_def)
    show ?thesis unfolding eq f bind_Inl
      by (intro bind_TypeError refl; erule errs)
  next
    assume "s = ''pagenumber''"
    then have f: "build_pagenumber y8 = Inl TypeError"
      using gs y8 k(2) kin build_pagenumber_unexpected [of k msec] by (simp add: section_fields_def)
    show ?thesis unfolding eq f bind_Inl
      by (intro bind_TypeError refl; erule errs)
  next
    assume "s = ''toc''"
    then have f: "build_toc y9 = Inl TypeError"
      using gs y9 k(2) kin build_toc_unexpected [of k msec] by (simp add: section_fields_def)
    show ?thesis unfolding eq f bind_Inl
      by (intro bind_TypeError refl; erule errs)
  next
    assume "s = ''processing''"
    then have f: "build_processing y10 = Inl TypeError"
      using gs y10 k(2) kin build_processing_unexpected [of k msec] by (simp add: section_fields_def)
    show ?thesis unfolding eq f bind_Inl
      by (intro bind_TypeError refl; erule errs)
  qed
qed


text \<open>
  C10: when the loaded JSON is a mapping, a top-level key that is not one of the ten
  section keys is carried through the merge and then ignored: the result of loading is
  the result for the mapping without such keys. An unknown key inside the dictionary
  given for one of the ten sections makes the record constructor raise \<^verbatim>\<open>TypeError\<close>,
  so loading fails and no configuration is produced.
\<close>

theorem load_config_unknown_keys:
  assumes "loads data = Inr (JDict its)" "distinct (map fst its)"
  shows "(\<forall>k v. (k, v) \<in> set its \<longrightarrow> k \<notin> set ReportConfig_fields \<longrightarrow>
            (\<exists>m. deep_merge (cfg_to_dict ReportConfig_default) (JDict its) = Inr m
               \<and> map_of m k = Some v))
       \<and> load_config_json_bytes loads data = cfg_from_dict (JDict (known_items its))
       \<and> (\<forall>s inner k. (s, JDict inner) \<in> set its \<longrightarrow> s \<in> set ReportConfig_fields \<longrightarrow>
            k \<in> fst ` set inner \<longrightarrow> k \<notin> set (section_fields s) \<longrightarrow>
            load_config_json_bytes loads data = Inl TypeError)"
proof (intro conjI allI impI)
  fix k v
  assume kv: "(k, v) \<in> set its" "k \<notin> set ReportConfig_fields"
  obtain m where m: "merge_items (cfg_to_dict ReportConfig_default) its = Inr m"
    using merge_items_total by blast
  have "map_of (cfg_to_dict ReportConfig_default) k = None"
    using kv(2) by (simp add: cfg_to_dict_def ReportConfig_fields_def)
  from merge_items_carried [OF m assms(2) kv(1) this] m
  show "\<exists>m. deep_merge (cfg_to_dict ReportConfig_default) (JDict its) = Inr m \<and> map_of m k = Some v"
    by (simp add: deep_merge_dict)
next
  show "load_config_json_bytes loads data = cfg_from_dict (JDict (known_items its))"
    using assms(1) cfg_from_dict_known_items [of its]
    by (simp add: load_config_json_bytes_def bind_Inr)
next
  fix s inner k
  assume "(s, JDict inner) \<in> set its" "s \<in> set ReportConfig_fields"
    "k \<in> fst ` set inner" "k \<notin> set (section_fields s)"
  from cfg_from_dict_unknown_nested [OF assms(2) this]
  show "load_config_json_bytes loads data = Inl TypeError"
    using assms(1) by (simp add: load_config_json_bytes_def bind_Inr)
qed

lemma cfg_from_dict_empty: "cfg_from_dict (JDict []) = Inr ReportConfig_default"
proof -
  have "cfg_from_dict (JDict []) = cfg_from_dict (JDict (cfg_to_dict ReportConfig_default))"
    by (intro cfg_from_dict_cong [where m = "cfg_to_dict ReportConfig_default"
          and m' = "cfg_to_dict ReportConfig_default"])
      (simp_all add: deep_merge_dict merge_cfg)
  then show ?thesis by (simp add: cfg_from_dict_to_dict)
qed

theorem load_config_unknown_keys_witness:
  "load_config_json_bytes Inr (JDict [(''extra'', JInt 1)]) = Inr ReportConfig_default
   \<and> (\<exists>m. deep_merge (cfg_to_dict ReportConfig_default) (JDict [(''extra'', JInt 1)]) = Inr m
        \<and> map_of m ''extra'' = Some (JInt 1))
   \<and> load_config_json_bytes Inr (JDict [(''toc'', JDict [(''extra'', JInt 1)])]) = Inl TypeError"
proof -
  have a: "(Inr :: json \<Rightarrow> error + json) (JDict [(''extra'', JInt 1)]) = Inr (JDict [(''extra'', JInt 1)])"
    by simp
  have b: "distinct (map fst [(''extra'', JInt 1)])" by simp
  have c: "(Inr :: json \<Rightarrow> error + json) (JDict [(''toc'', JDict [(''extra'', JInt 1)])])
      = Inr (JDict [(''toc'', JDict [(''extra'', JInt 1)])])"
    by simp
  have d: "distinct (map fst [(''toc'', JDict [(''extra'', JInt 1)])])" by simp
  have k: "known_items [(''extra'', JInt 1)] = []"
    by (simp add: known_items_def ReportConfig_fields_def)
  have nf: "''extra'' \<notin> set ReportConfig_fields" by (simp add: ReportConfig_fields_def)
  have tf: "''toc'' \<in> set ReportConfig_fields" by (simp add: ReportConfig_fields_def)
  have nt: "''extra'' \<notin> set (section_fields ''toc'')"
    by (simp add: section_fields_def TocConfig_fields_def)
  from load_config_unknown_keys [of Inr "JDict [(''extra'', JInt 1)]" "[(''extra'', JInt 1)]", OF a b]
  have 1: "load_config_json_bytes Inr (JDict [(''extra'', JInt 1)]) = Inr ReportConfig_default"
    and 2: "\<exists>m. deep_merge (cfg_to_dict ReportConfig_default) (JDict [(''extra'', JInt 1)]) = Inr m
        \<and> map_of m ''extra'' = Some (JInt 1)"
    using nf by (simp_all add: k cfg_from_dict_empty)
  from load_config_unknown_keys [of Inr "JDict [(''toc'', JDict [(''extra'', JInt 1)])]"
      "[(''toc'', JDict [(''extra'', JInt 1)])]", OF c d, THEN conjunct2, THEN conjunct2,
      rule_format, of "''toc''" "[(''extra'', JInt 1)]" "''extra''"]
  have 3: "load_config_json_bytes Inr (JDict [(''toc'', JDict [(''extra'', JInt 1)])]) = Inl TypeError"
    using tf nt by simp
  from 1 2 3 show ?thesis by simp
qed

section \<open>Facts about the built-in functions\<close>

lemma upper_of_JStr: "upper_of (JStr a) = Inr (upper a)"
  by (simp add: upper_of_def)

lemma scaled_number: "is_number x \<Longrightarrow> scaled k x = Inr ()"
  by (cases x) (simp_all add: is_number_def scaled_def)

lemma Pt_of_number: "is_number x \<Longrightarrow> Pt_of x = Inr (Pt x)"
  by (simp add: Pt_of_def scaled_number bind_Inr)

lemma Cm_of_number: "is_number x \<Longrightarrow> Cm_of x = Inr (Cm x)"
  by (simp add: Cm_of_def scaled_number bind_Inr)

lemma Pt_of_None: "Pt_of JNull = Inl TypeError"
  by (simp add: Pt_of_def scaled_def bind_Inl)

lemma number_value_is_number: "number_value x = Some q \<Longrightarrow> is_number x"
  by (cases x) (simp_all add: number_value_def is_number_def)

section \<open>Properties of style application and of the sweeps\<close>

lemma indent_of_number:
  "number_value x = Some q \<Longrightarrow> indent_of x = Inr (if q = 0 then None else Some (Cm x))"
proof -
  assume a: "number_value x = Some q"
  then have n: "is_number x" by (rule number_value_is_number)
  have "truthy x \<longleftrightarrow> q \<noteq> 0" using a by (cases x) (auto simp: number_value_def)
  then show ?thesis by (simp add: indent_of_def Cm_of_number [OF n] bind_Inr)
qed

lemma set_paragraph_format_ok:
  assumes "valid_StyleConfig scfg" "number_value (first_line_indent_cm scfg) = Some q"
  shows "\<exists>pf'. set_paragraph_format pf scfg = Inr pf' \<and>
     first_line_indent pf' = (if q = 0 then None else Some (Cm (first_line_indent_cm scfg)))"
proof -
  from assms(1) have n: "is_number (space_before_pt scfg)" "is_number (space_after_pt scfg)"
    and s: "is_str (StyleConfig.alignment scfg)"
    by (simp_all add: valid_StyleConfig_def)
  from s obtain a where a: "StyleConfig.alignment scfg = JStr a"
    by (cases "StyleConfig.alignment scfg") (simp_all add: is_str_def)
  show ?thesis
    by (simp add: set_paragraph_format_def Let_def Pt_of_number [OF n(1)] Pt_of_number [OF n(2)]
        indent_of_number [OF assms(2)] a upper_of_JStr bind_Inr)
qed

lemma set_paragraph_format_not_a_number:
  "space_before_pt scfg = JNull \<Longrightarrow> set_paragraph_format pf scfg = Inl TypeError"
  by (simp add: set_paragraph_format_def Let_def Pt_of_None bind_Inl)

lemma valid_number_value:
  "valid_StyleConfig scfg \<Longrightarrow> \<exists>q. number_value (first_line_indent_cm scfg) = Some q"
  by (cases "first_line_indent_cm scfg") (simp_all add: valid_StyleConfig_def is_number_def number_value_def)

lemma apply_style_raises: "apply_style_to_docx_style st scfg = Inl AttributeError"
  by (simp add: apply_style_to_docx_style_def Let_def set_font_all_scripts_def font_rFonts_def bind_Inl)

lemma fromhex_FF0000: "fromhex ''FF0000'' = Inr [255, 0, 0]"
  by code_simp

lemma fromhex_not_a_color: "fromhex ''not-a-color'' = Inl ValueError"
  by code_simp

lemma apply_color_FF0000: "apply_color f (JStr ''FF0000'') = f \<lparr> color_rgb := None \<rparr>"
  by (simp add: apply_color_def fromhex_of_def fromhex_FF0000 set_color_rgb_def del: fromhex.simps)

lemma apply_color_not_a_color: "apply_color f (JStr ''not-a-color'') = f"
  by (simp add: apply_color_def fromhex_of_def fromhex_not_a_color del: fromhex.simps)

text \<open>
  C2 says that a style configuration with the colour \<^verbatim>\<open>"FF0000"\<close> sets the colour of the
  style's font to FF0000, that one with \<^verbatim>\<open>"not-a-color"\<close> leaves the colour as it was,
  and that no error is raised. The code does not do this. For every style and every
  valid style configuration, \<^verbatim>\<open>_apply_style_to_docx_style\<close> raises \<^verbatim>\<open>AttributeError\<close> in
  \<^verbatim>\<open>_set_font_all_scripts\<close>, outside the \<^verbatim>\<open>try\<close>, before the colour is reached. The colour
  code by itself does not set FF0000 either: the bytes of \<^verbatim>\<open>bytes.fromhex("FF0000")\<close> are
  rejected by the setter, after the colour the font had is removed, and the exception is
  swallowed. Only the case \<^verbatim>\<open>"not-a-color"\<close> of the colour code is as the claim says.
\<close>

theorem apply_style_color_raises:
  assumes "valid_StyleConfig scfg"
  shows "apply_style_to_docx_style st scfg = Inl AttributeError
       \<and> color_rgb (apply_color f (JStr ''FF0000'')) = None
       \<and> apply_color f (JStr ''not-a-color'') = f"
  using assms by (simp add: apply_style_raises apply_color_FF0000 apply_color_not_a_color)

lemma valid_StyleConfig_default: "valid_StyleConfig StyleConfig_default"
  by (simp add: valid_StyleConfig_def StyleConfig_default_def is_str_def is_number_def is_bool_def)

lemma valid_default_FF0000: "valid_StyleConfig (StyleConfig_default \<lparr> color_hex := JStr ''FF0000'' \<rparr>)"
  by (simp add: valid_StyleConfig_def StyleConfig_default_def is_str_def is_number_def is_bool_def)

theorem apply_style_color_raises_witness:
  "apply_style_to_docx_style
      \<lparr> DocxStyle.font = Font_empty \<lparr> color_rgb := Some [0, 0, 255] \<rparr>,
        DocxStyle.paragraph_format = ParagraphFormat_empty \<rparr>
      (StyleConfig_default \<lparr> color_hex := JStr ''FF0000'' \<rparr>) = Inl AttributeError
   \<and> color_rgb (apply_color (Font_empty \<lparr> color_rgb := Some [0, 0, 255] \<rparr>) (JStr ''FF0000'')) = None
   \<and> color_rgb (apply_color (Font_empty \<lparr> color_rgb := Some [0, 0, 255] \<rparr>) (JStr ''not-a-color''))
       = Some [0, 0, 255]"
  using apply_style_color_raises [OF valid_default_FF0000,
      of "\<lparr> DocxStyle.font = Font_empty \<lparr> color_rgb := Some [0, 0, 255] \<rparr>,
        DocxStyle.paragraph_format = ParagraphFormat_empty \<rparr>"
      "Font_empty \<lparr> color_rgb := Some [0, 0, 255] \<rparr>"]
  by simp

lemma force_paragraph_format_step_bucket:
  "force_paragraph_format_step cfg p =
     bind (set_paragraph_format (Paragraph.paragraph_format p)
             (bucket_config cfg (spec_style_bucket (assigned_style_name p))))
       (\<lambda>pf. Inr (p \<lparr> Paragraph.paragraph_format := pf \<rparr>))"
  by (simp add: force_paragraph_format_step_def Let_def
      spec_style_bucket_def assigned_style_name_def style_name_lower_def)

lemma force_run_font_step_bucket:
  "force_run_font_step cfg p =
     Inr (p \<lparr> children :=
       on_runs (set_run_font (bucket_config cfg (spec_style_bucket (assigned_style_name p))))
         (children p) \<rparr>)"
  by (simp add: force_run_font_step_def Let_def
      spec_style_bucket_def assigned_style_name_def style_name_lower_def)

lemma bucket_Title: "spec_style_bucket ''Title'' = Title"
  by code_simp

lemma bucket_HEADING_1: "spec_style_bucket ''My HEADING 1 style'' = Heading1"
  by code_simp

text \<open>
  C8 says that a first-line indent of 0 gives \<open>None\<close> and any other number \<open>x\<close> the length
  \<^verbatim>\<open>Cm(x)\<close>, when the configuration is applied to a style definition and when the sweep
  applies it to a paragraph. For a valid style configuration the sweep does so, on every
  paragraph of the configuration's bucket. The application to a style definition does
  not: it raises \<^verbatim>\<open>AttributeError\<close> in \<^verbatim>\<open>_set_font_all_scripts\<close> before the indent is
  assigned.
\<close>

theorem first_line_indent_zero:
  assumes "valid_StyleConfig scfg" "number_value (first_line_indent_cm scfg) = Some q"
  shows "apply_style_to_docx_style st scfg = Inl AttributeError
       \<and> (bucket_config cfg (spec_style_bucket (assigned_style_name p)) = scfg \<longrightarrow>
            (\<exists>p'. force_paragraph_format_step cfg p = Inr p'
              \<and> first_line_indent (Paragraph.paragraph_format p')
                  = (if q = 0 then None else Some (Cm (first_line_indent_cm scfg)))))"
proof (intro conjI impI)
  show "apply_style_to_docx_style st scfg = Inl AttributeError" by (rule apply_style_raises)
next
  assume b: "bucket_config cfg (spec_style_bucket (assigned_style_name p)) = scfg"
  obtain pf' where pf: "set_paragraph_format (Paragraph.paragraph_format p) scfg = Inr pf'"
    "first_line_indent pf' = (if q = 0 then None else Some (Cm (first_line_indent_cm scfg)))"
    using set_paragraph_format_ok [OF assms] by blast
  show "\<exists>p'. force_paragraph_format_step cfg p = Inr p'
      \<and> first_line_indent (Paragraph.paragraph_format p')
          = (if q = 0 then None else Some (Cm (first_line_indent_cm scfg)))"
    using pf by (simp add: force_paragraph_format_step_bucket b bind_Inr)
qed

lemma valid_defaults:
  "valid_StyleConfig (title ReportConfig_default)"
  "valid_StyleConfig (normal ReportConfig_default)"
  "valid_StyleConfig (heading1 ReportConfig_default)"
  by (simp_all add: ReportConfig_default_def valid_StyleConfig_def StyleConfig_default_def
      is_str_def is_number_def is_bool_def)

theorem first_line_indent_zero_witness:
  "apply_style_to_docx_style
        \<lparr> DocxStyle.font = Font_empty, DocxStyle.paragraph_format = ParagraphFormat_empty \<rparr>
        (title ReportConfig_default) = Inl AttributeError
   \<and> (\<exists>p'. force_paragraph_format_step ReportConfig_default
        ((new_paragraph ''Report'') \<lparr> style := Some ''Title'' \<rparr>) = Inr p'
      \<and> first_line_indent (Paragraph.paragraph_format p') = None)
   \<and> (\<exists>p'. force_paragraph_format_step ReportConfig_default (new_paragraph ''Body'') = Inr p'
      \<and> first_line_indent (Paragraph.paragraph_format p') = Some (Cm (JFloat 1)))"
proof -
  let ?st = "\<lparr> DocxStyle.font = Font_empty, DocxStyle.paragraph_format = ParagraphFormat_empty \<rparr>"
  let ?p = "(new_paragraph ''Report'') \<lparr> style := Some ''Title'' \<rparr>"
  let ?b = "new_paragraph ''Body''"
  have t: "number_value (first_line_indent_cm (title ReportConfig_default)) = Some 0"
    by (simp add: ReportConfig_default_def StyleConfig_default_def number_value_def)
  have n: "number_value (first_line_indent_cm (normal ReportConfig_default)) = Some 1"
    "first_line_indent_cm (normal ReportConfig_default) = JFloat 1"
    by (simp_all add: ReportConfig_default_def StyleConfig_default_def number_value_def)
  have b: "bucket_config ReportConfig_default (spec_style_bucket (assigned_style_name ?p))
      = title ReportConfig_default"
    by (simp add: assigned_style_name_def bucket_Title)
  have nb: "spec_style_bucket ''Normal'' = Normal" by code_simp
  have b2: "bucket_config ReportConfig_default (spec_style_bucket (assigned_style_name ?b))
      = normal ReportConfig_default"
    by (simp add: assigned_style_name_def new_paragraph_def nb)
  from first_line_indent_zero [OF valid_defaults(1) t, of ?st ReportConfig_default ?p]
    first_line_indent_zero [OF valid_defaults(2) n(1), of ?st ReportConfig_default ?b] b b2 n(2)
  show ?thesis by simp
qed

lemma bind_eq_Inr: "bind m f = Inr y \<longleftrightarrow> (\<exists>x. m = Inr x \<and> f x = Inr y)"
  by (cases m) (simp_all add: bind_def)

lemma for_each_Cons_Inr:
  "for_each f (x # xs) = Inr zs \<longleftrightarrow> (\<exists>y ys. f x = Inr y \<and> for_each f xs = Inr ys \<and> zs = y # ys)"
  by (auto simp: bind_eq_Inr)

lemma for_each_append_Inr:
  "for_each f xs = Inr xs' \<Longrightarrow> for_each f ys = Inr ys' \<Longrightarrow> for_each f (xs @ ys) = Inr (xs' @ ys')"
proof (induction xs arbitrary: xs')
  case Nil
  then show ?case by simp
next
  case (Cons x xs)
  from Cons.prems(1) obtain y zs where y: "f x = Inr y" "for_each f xs = Inr zs" "xs' = y # zs"
    unfolding for_each_Cons_Inr by blast
  from Cons.IH [OF y(2) Cons.prems(2)] y show ?case by (simp add: bind_Inr)
qed

lemma for_each_concat_Inr:
  "for_each (for_each f) xss = Inr yss \<Longrightarrow> for_each f (concat xss) = Inr (concat yss)"
proof (induction xss arbitrary: yss)
  case Nil
  then show ?case by simp
next
  case (Cons xs xss)
  from Cons.prems obtain ys zss where y: "for_each f xs = Inr ys" "for_each (for_each f) xss = Inr zss"
    "yss = ys # zss"
    unfolding for_each_Cons_Inr by blast
  from for_each_append_Inr [OF y(1) Cons.IH [OF y(2)]] y(3) show ?case by simp
qed

lemma body_pass_paragraphs:
  "for_each (on_body_paragraph f) bs = Inr bs' \<Longrightarrow>
   for_each f (body_paragraphs bs) = Inr (body_paragraphs bs') \<and> body_tables bs' = body_tables bs"
proof (induction bs arbitrary: bs')
  case Nil
  then show ?case by simp
next
  case (Cons b bs)
  from Cons.prems obtain c cs where c: "on_body_paragraph f b = Inr c"
    "for_each (on_body_paragraph f) bs = Inr cs" "bs' = c # cs"
    unfolding for_each_Cons_Inr by blast
  note ih = Cons.IH [OF c(2)]
  show ?case
  proof (cases b)
    case (BlockP p)
    with c(1) obtain p' where "f p = Inr p'" "c = BlockP p'" by (auto simp: bind_eq_Inr)
    with ih c(3) BlockP show ?thesis by (simp add: bind_Inr)
  next
    case (BlockT t)
    with c(1) have "c = BlockT t" by simp
    with ih c(3) BlockT show ?thesis by simp
  qed
qed

lemma body_pass_tables:
  "for_each (on_table_paragraphs f) bs = Inr bs' \<Longrightarrow>
   body_paragraphs bs' = body_paragraphs bs \<and>
   for_each (for_each (for_each (for_each f))) (body_tables bs) = Inr (body_tables bs')"
proof (induction bs arbitrary: bs')
  case Nil
  then show ?case by simp
next
  case (Cons b bs)
  from Cons.prems obtain c cs where c: "on_table_paragraphs f b = Inr c"
    "for_each (on_table_paragraphs f) bs = Inr cs" "bs' = c # cs"
    unfolding for_each_Cons_Inr by blast
  note ih = Cons.IH [OF c(2)]
  show ?case
  proof (cases b)
    case (BlockP p)
    with c(1) have "c = BlockP p" by simp
    with ih c(3) BlockP show ?thesis by simp
  next
    case (BlockT t)
    with c(1) obtain t' where "for_each (for_each (for_each f)) t = Inr t'" "c = BlockT t'"
      by (auto simp: bind_eq_Inr)
    with ih c(3) BlockT show ?thesis by (simp add: bind_Inr)
  qed
qed

lemma for_all_paragraphs_visits:
  assumes "for_all_paragraphs f incl doc = Inr doc'"
  shows "for_each f (iter_all_paragraphs doc incl) = Inr (iter_all_paragraphs doc' incl)"
proof -
  from assms obtain b1 where b1: "for_each (on_body_paragraph f) (body doc) = Inr b1"
    and rest: "(if truthy incl
       then bind (for_each (on_table_paragraphs f) b1) (\<lambda>b2. Inr (doc \<lparr> body := b2 \<rparr>))
       else Inr (doc \<lparr> body := b1 \<rparr>)) = Inr doc'"
    by (auto simp: for_all_paragraphs_def bind_eq_Inr)
  note p1 = body_pass_paragraphs [OF b1]
  show ?thesis
  proof (cases "truthy incl")
    case False
    with rest have "body doc' = b1" by auto
    with p1 False show ?thesis by (simp add: iter_all_paragraphs_def)
  next
    case True
    with rest obtain b2 where b2: "for_each (on_table_paragraphs f) b1 = Inr b2" "body doc' = b2"
      by (auto simp: bind_eq_Inr)
    note p2 = body_pass_tables [OF b2(1)]
    have t: "for_each f (concat (concat (concat (body_tables (body doc)))))
        = Inr (concat (concat (concat (body_tables b2))))"
      using p2 p1 by (intro for_each_concat_Inr) simp
    have "for_each f (body_paragraphs (body doc)) = Inr (body_paragraphs b2)"
      using p1 p2 by simp
    from for_each_append_Inr [OF this t] True b2(2) show ?thesis
      by (simp add: iter_all_paragraphs_def)
  qed
qed


lemma force_paragraph_format_visits:
  assumes "truthy (force_paragraph_format_everywhere (processing cfg))"
    "force_paragraph_format cfg doc = Inr doc'"
  shows "for_each (force_paragraph_format_step cfg)
           (iter_all_paragraphs doc (include_tables (processing cfg)))
         = Inr (iter_all_paragraphs doc' (include_tables (processing cfg)))"
  using assms by (intro for_all_paragraphs_visits) (simp add: force_paragraph_format_def Let_def)

lemma force_run_font_visits:
  assumes "truthy (force_run_font_everywhere (processing cfg))"
    "force_run_font cfg doc = Inr doc'"
  shows "for_each (force_run_font_step cfg)
           (iter_all_paragraphs doc (include_tables (processing cfg)))
         = Inr (iter_all_paragraphs doc' (include_tables (processing cfg)))"
  using assms by (intro for_all_paragraphs_visits) (simp add: force_run_font_def Let_def)


text \<open>
  C5: for every paragraph, the paragraph-format sweep and the run-font sweep both apply
  the configuration of the bucket that the specification's classification gives for the
  paragraph's assigned style name; and a sweep that is enabled and returns has applied
  its loop body to every paragraph that \<^verbatim>\<open>_iter_all_paragraphs\<close> yields, in that order.
\<close>

theorem sweeps_style_bucket:
  "force_paragraph_format_step cfg p =
     bind (set_paragraph_format (Paragraph.paragraph_format p)
             (bucket_config cfg (spec_style_bucket (assigned_style_name p))))
       (\<lambda>pf. Inr (p \<lparr> Paragraph.paragraph_format := pf \<rparr>))
   \<and> force_run_font_step cfg p =
     Inr (p \<lparr> children :=
       on_runs (set_run_font (bucket_config cfg (spec_style_bucket (assigned_style_name p))))
         (children p) \<rparr>)
   \<and> (truthy (force_paragraph_format_everywhere (processing cfg)) \<longrightarrow>
        force_paragraph_format cfg doc = Inr doc' \<longrightarrow>
        for_each (force_paragraph_format_step cfg)
           (iter_all_paragraphs doc (include_tables (processing cfg)))
         = Inr (iter_all_paragraphs doc' (include_tables (processing cfg))))
   \<and> (truthy (force_run_font_everywhere (processing cfg)) \<longrightarrow>
        force_run_font cfg doc = Inr doc'' \<longrightarrow>
        for_each (force_run_font_step cfg)
           (iter_all_paragraphs doc (include_tables (processing cfg)))
         = Inr (iter_all_paragraphs doc'' (include_tables (processing cfg))))"
  using force_paragraph_format_step_bucket [of cfg p] force_run_font_step_bucket [of cfg p]
    force_paragraph_format_visits [of cfg doc doc'] force_run_font_visits [of cfg doc doc'']
  by simp

theorem sweeps_style_bucket_witness:
  "\<exists>doc' doc''.
     force_paragraph_format ReportConfig_default
       \<lparr> body = [BlockP ((new_paragraph ''Intro'') \<lparr> style := Some ''My HEADING 1 style'' \<rparr>),
                 BlockT [[[(new_paragraph ''Intro'') \<lparr> style := Some ''My HEADING 1 style'' \<rparr>]]]],
         sections = [], styles = [] \<rparr> = Inr doc'
   \<and> force_run_font ReportConfig_default
       \<lparr> body = [BlockP ((new_paragraph ''Intro'') \<lparr> style := Some ''My HEADING 1 style'' \<rparr>),
                 BlockT [[[(new_paragraph ''Intro'') \<lparr> style := Some ''My HEADING 1 style'' \<rparr>]]]],
         sections = [], styles = [] \<rparr> = Inr doc''
   \<and> for_each (force_paragraph_format_step ReportConfig_default)
        [(new_paragraph ''Intro'') \<lparr> style := Some ''My HEADING 1 style'' \<rparr>,
         (new_paragraph ''Intro'') \<lparr> style := Some ''My HEADING 1 style'' \<rparr>]
       = Inr (iter_all_paragraphs doc' (JBool True))
   \<and> for_each (force_run_font_step ReportConfig_default)
        [(new_paragraph ''Intro'') \<lparr> style := Some ''My HEADING 1 style'' \<rparr>,
         (new_paragraph ''Intro'') \<lparr> style := Some ''My HEADING 1 style'' \<rparr>]
       = Inr (iter_all_paragraphs doc'' (JBool True))
   \<and> force_run_font_step ReportConfig_default
        ((new_paragraph ''Intro'') \<lparr> style := Some ''My HEADING 1 style'' \<rparr>)
       = Inr ((new_paragraph ''Intro'') \<lparr> style := Some ''My HEADING 1 style'',
           children := [RunChild (set_run_font (heading1 ReportConfig_default) (new_run ''Intro''))] \<rparr>)"
proof -
  let ?p = "(new_paragraph ''Intro'') \<lparr> style := Some ''My HEADING 1 style'' \<rparr>"
  let ?doc = "\<lparr> body = [BlockP ?p, BlockT [[[?p]]]], sections = [], styles = [] \<rparr>"
  have pr: "processing ReportConfig_default = ProcessingConfig_default"
    by (simp add: ReportConfig_default_def)
  have fl: "truthy (force_paragraph_format_everywhere (processing ReportConfig_default))"
    "truthy (force_run_font_everywhere (processing ReportConfig_default))"
    "include_tables (processing ReportConfig_default) = JBool True"
    by (simp_all add: pr ProcessingConfig_default_def)
  have h1: "number_value (first_line_indent_cm (heading1 ReportConfig_default)) = Some 0"
    by (simp add: ReportConfig_default_def StyleConfig_default_def number_value_def)
  have b: "bucket_config ReportConfig_default (spec_style_bucket (assigned_style_name ?p))
      = heading1 ReportConfig_default"
    by (simp add: assigned_style_name_def bucket_HEADING_1)
  obtain pf' where pf: "set_paragraph_format (Paragraph.paragraph_format ?p)
      (heading1 ReportConfig_default) = Inr pf'"
    using set_paragraph_format_ok [OF valid_defaults(3) h1] by blast
  have s1: "force_paragraph_format_step ReportConfig_default ?p
      = Inr (?p \<lparr> Paragraph.paragraph_format := pf' \<rparr>)"
    by (simp only: force_paragraph_format_step_bucket b pf bind_Inr)
  have s2: "force_run_font_step ReportConfig_default ?p
      = Inr (?p \<lparr> children := on_runs (set_run_font (heading1 ReportConfig_default)) (children ?p) \<rparr>)"
    by (simp only: force_run_font_step_bucket b)
  have d1: "\<exists>doc'. force_paragraph_format ReportConfig_default ?doc = Inr doc'"
    by (simp add: force_paragraph_format_def Let_def fl for_all_paragraphs_def s1 bind_Inr
        del: bucket_config.simps)
  have d2: "\<exists>doc''. force_run_font ReportConfig_default ?doc = Inr doc''"
    by (simp add: force_run_font_def Let_def fl for_all_paragraphs_def s2 bind_Inr
        del: bucket_config.simps)
  from d1 d2 obtain doc' doc'' where d: "force_paragraph_format ReportConfig_default ?doc = Inr doc'"
    "force_run_font ReportConfig_default ?doc = Inr doc''"
    by blast
  have it: "iter_all_paragraphs ?doc (JBool True) = [?p, ?p]"
    by (simp add: iter_all_paragraphs_def)
  from sweeps_style_bucket [of ReportConfig_default ?p ?doc doc' doc''] d fl it b
  have "for_each (force_paragraph_format_step ReportConfig_default) [?p, ?p]
       = Inr (iter_all_paragraphs doc' (JBool True))
    \<and> for_each (force_run_font_step ReportConfig_default) [?p, ?p]
       = Inr (iter_all_paragraphs doc'' (JBool True))
    \<and> force_run_font_step ReportConfig_default ?p
       = Inr (?p \<lparr> children := on_runs (set_run_font (heading1 ReportConfig_default)) (children ?p) \<rparr>)"
    by (simp del: for_each.simps)
  then show ?thesis using d by (auto simp: new_paragraph_def)
qed

section \<open>Properties of the page-number application\<close>

lemma second_split_once: "CHR ''_'' \<in> set pos \<Longrightarrow> \<exists>k. second (split_once pos) = Inr k"
  by (simp add: split_once_def second_def)

lemma set_section_page_numbering_restart:
  "\<exists>s' pg. set_section_page_numbering s (JInt n) (JStr f) True = Inr s'
     \<and> pgNumType s' = Some pg \<and> start pg = Some (str_of_int n)
     \<and> header s' = header s \<and> footer s' = footer s"
  by (simp add: set_section_page_numbering_def Let_def upper_of_JStr bind_Inr py_int_def)

lemma set_section_page_numbering_continue:
  "\<exists>s' pg. set_section_page_numbering s x (JStr f) False = Inr s'
     \<and> pgNumType s' = Some pg \<and> start pg = None
     \<and> header s' = header s \<and> footer s' = footer s"
  by (simp add: set_section_page_numbering_def Let_def upper_of_JStr bind_Inr)

lemma page_number_section_ok:
  assumes "\<not> truthy (restart_each_section pn)" "start_at pn = JInt n" "number_format pn = JStr f"
    "position pn = JStr pos" "CHR ''_'' \<in> set pos" "template pn = JStr t"
  shows "\<exists>s' pg. page_number_section pn idx s = Inr s' \<and> pgNumType s' = Some pg
     \<and> start pg = (if idx = 0 then Some (str_of_int n) else None)"
proof -
  obtain k where k: "second (split_once pos) = Inr k"
    using second_split_once [OF assms(5)] by blast
  obtain r pg where pg: "set_section_page_numbering s (JInt n) (JStr f) True = Inr r"
    "pgNumType r = Some pg" "start pg = Some (str_of_int n)"
    using set_section_page_numbering_restart by blast
  obtain r' pg' where pg': "set_section_page_numbering s (JInt n) (JStr f) False = Inr r'"
    "pgNumType r' = Some pg'" "start pg' = None"
    using set_section_page_numbering_continue by blast
  show ?thesis
  proof (cases "idx = 0")
    case True
    then show ?thesis
      using assms k pg
      by (simp add: page_number_section_def Let_def bind_Inr split_template_of_def)
  next
    case False
    then show ?thesis
      using assms k pg'
      by (simp add: page_number_section_def Let_def bind_Inr split_template_of_def)
  qed
qed

text \<open>
  C4: with page numbering enabled and \<^verbatim>\<open>restart_each_section\<close> false, on a document
  with three sections the page-number application returns a document whose first
  section has a page-numbering element with the start value \<^verbatim>\<open>str(start_at)\<close>, and whose
  second and third sections have a page-numbering element without a start value,
  whatever start value they had before. The page-number configuration is a valid one:
  an integer start number, a string format and template, and a position with an
  underscore.
\<close>

theorem page_numbers_restart_first_section_only:
  assumes "truthy (enabled (pagenumber cfg))"
    and "\<not> truthy (restart_each_section (pagenumber cfg))"
    and "start_at (pagenumber cfg) = JInt n"
    and "number_format (pagenumber cfg) = JStr f"
    and "position (pagenumber cfg) = JStr pos" and "CHR ''_'' \<in> set pos"
    and "template (pagenumber cfg) = JStr t"
    and "sections doc = [s1, s2, s3]"
  shows "\<exists>doc' s1' s2' s3' pg1 pg2 pg3.
     apply_page_numbers cfg doc = Inr doc' \<and> sections doc' = [s1', s2', s3']
     \<and> pgNumType s1' = Some pg1 \<and> start pg1 = Some (str_of_int n)
     \<and> pgNumType s2' = Some pg2 \<and> start pg2 = None
     \<and> pgNumType s3' = Some pg3 \<and> start pg3 = None"
proof -
  let ?pn = "pagenumber cfg"
  note ok = page_number_section_ok [OF assms(2-7)]
  obtain s1' pg1 where 1: "page_number_section ?pn 0 s1 = Inr s1'" "pgNumType s1' = Some pg1"
    "start pg1 = Some (str_of_int n)"
    using ok [of 0 s1] by auto
  obtain s2' pg2 where 2: "page_number_section ?pn (Suc 0) s2 = Inr s2'" "pgNumType s2' = Some pg2"
    "start pg2 = None"
    using ok [of "Suc 0" s2] by auto
  obtain s3' pg3 where 3: "page_number_section ?pn (Suc (Suc 0)) s3 = Inr s3'" "pgNumType s3' = Some pg3"
    "start pg3 = None"
    using ok [of "Suc (Suc 0)" s3] by auto
  have "apply_page_numbers cfg doc = Inr (doc \<lparr> sections := [s1', s2', s3'] \<rparr>)"
    using assms(1,8) 1(1) 2(1) 3(1)
    by (simp add: apply_page_numbers_def Let_def bind_Inr)
  with 1 2 3 show ?thesis by simp
qed

lemma str_of_int_1: "str_of_int 1 = ''1''"
  by code_simp

theorem page_numbers_restart_first_section_only_witness:
  "\<exists>doc' s1' s2' s3' pg1 pg2 pg3.
     apply_page_numbers ReportConfig_default
       \<lparr> body = [],
         sections = [\<lparr> pgNumType = None, header = [], footer = [] \<rparr>,
                     \<lparr> pgNumType = Some \<lparr> fmt = Some ''upperRoman'', start = Some ''5'' \<rparr>,
                       header = [], footer = [] \<rparr>,
                     \<lparr> pgNumType = None, header = [], footer = [] \<rparr>],
         styles = [] \<rparr> = Inr doc'
     \<and> sections doc' = [s1', s2', s3']
     \<and> pgNumType s1' = Some pg1 \<and> start pg1 = Some ''1''
     \<and> pgNumType s2' = Some pg2 \<and> start pg2 = None
     \<and> pgNumType s3' = Some pg3 \<and> start pg3 = None"
proof -
  let ?doc = "\<lparr> body = [],
         sections = [\<lparr> pgNumType = None, header = [], footer = [] \<rparr>,
                     \<lparr> pgNumType = Some \<lparr> fmt = Some ''upperRoman'', start = Some ''5'' \<rparr>,
                       header = [], footer = [] \<rparr>,
                     \<lparr> pgNumType = None, header = [], footer = [] \<rparr>],
         styles = [] \<rparr>"
  have pn: "pagenumber ReportConfig_default = PageNumberConfig_default"
    by (simp add: ReportConfig_default_def)
  have h: "truthy (enabled (pagenumber ReportConfig_default))"
    "\<not> truthy (restart_each_section (pagenumber ReportConfig_default))"
    "start_at (pagenumber ReportConfig_default) = JInt 1"
    "number_format (pagenumber ReportConfig_default) = JStr ''DECIMAL''"
    "position (pagenumber ReportConfig_default) = JStr ''FOOTER_CENTER''"
    "CHR ''_'' \<in> set ''FOOTER_CENTER''"
    "template (pagenumber ReportConfig_default) = JStr ''Trang {PAGE}/{NUMPAGES}''"
    by (simp_all add: pn PageNumberConfig_default_def)
  have s: "sections ?doc = [\<lparr> pgNumType = None, header = [], footer = [] \<rparr>,
                     \<lparr> pgNumType = Some \<lparr> fmt = Some ''upperRoman'', start = Some ''5'' \<rparr>,
                       header = [], footer = [] \<rparr>,
                     \<lparr> pgNumType = None, header = [], footer = [] \<rparr>]"
    by simp
  from page_numbers_restart_first_section_only [OF h s] show ?thesis
    by (simp only: str_of_int_1)
qed

section \<open>Table-of-contents insertion does not complete\<close>

lemma for_each_run_total:
  "(\<And>r. f r = Inr (g r)) \<Longrightarrow> for_each_run f chs = Inr (on_runs g chs)"
proof (induction chs)
  case Nil
  then show ?case by simp
next
  case (Cons ch chs)
  then show ?case by (cases ch) (simp_all add: bind_Inr)
qed

lemma set_title_run_ok:
  "is_number (title_font_size_pt (toc cfg)) \<Longrightarrow>
   set_title_run cfg r =
     Inr (r \<lparr> Run.font := (Run.font r) \<lparr> bold := title_bold (toc cfg),
            size' := Some (Pt (title_font_size_pt (toc cfg))),
            name := StyleConfig.font_name (normal cfg) \<rparr> \<rparr>)"
  by (simp add: set_title_run_def Let_def Pt_of_number bind_Inr)

lemma insert_toc_title_ok:
  assumes "TocConfig.title (toc cfg) = JStr t" "title_alignment (toc cfg) = JStr a"
    "is_number (title_font_size_pt (toc cfg))"
  shows "\<exists>doc1 p_title. insert_toc_title cfg doc = Inr (doc1, p_title)
     \<and> body doc1 = insert_before_first_paragraph [BlockP p_title] (body doc)"
proof -
  have "\<exists>p0. paragraph_with_text (JStr t) = Inr p0"
    by (simp add: paragraph_with_text_def)
  then obtain p0 where p0: "paragraph_with_text (JStr t) = Inr p0" by blast
  show ?thesis
    using for_each_run_total [of "set_title_run cfg", OF set_title_run_ok [OF assms(3)]]
    by (simp add: insert_toc_title_def Let_def assms(1,2) p0 upper_of_JStr bind_Inr)
qed

text \<open>
  C6 says that, with the insertion enabled, the engine inserts a title paragraph, a
  paragraph with the field and an empty paragraph with a page break, and completes
  without error. The code does not complete: for a valid table-of-contents
  configuration it inserts the title paragraph and then raises \<^verbatim>\<open>AttributeError\<close> at
  \<^verbatim>\<open>p_title.insert_paragraph_after("")\<close>, on every document, so the field paragraph and the
  page-break paragraph are never made.
\<close>

theorem insert_toc_raises:
  assumes "truthy (insert_toc (toc cfg))" "TocConfig.title (toc cfg) = JStr t"
    "title_alignment (toc cfg) = JStr a" "is_number (title_font_size_pt (toc cfg))"
  shows "insert_toc_if_needed str_of cfg doc = Inl AttributeError
     \<and> (\<exists>doc1 p_title. insert_toc_title cfg doc = Inr (doc1, p_title)
          \<and> body doc1 = insert_before_first_paragraph [BlockP p_title] (body doc))"
proof -
  obtain doc1 p_title where d: "insert_toc_title cfg doc = Inr (doc1, p_title)"
    "body doc1 = insert_before_first_paragraph [BlockP p_title] (body doc)"
    using insert_toc_title_ok [OF assms(2-4)] by blast
  have "insert_toc_if_needed str_of cfg doc = Inl AttributeError"
    using assms(1) d(1)
    by (simp add: insert_toc_if_needed_def Let_def bind_Inr insert_paragraph_after_def bind_Inl)
  with d show ?thesis by blast
qed

theorem insert_toc_raises_witness:
  "insert_toc_if_needed (\<lambda>x. case x of JStr s \<Rightarrow> s | _ \<Rightarrow> [])
     (ReportConfig_default \<lparr> toc := TocConfig_default \<lparr> insert_toc := JBool True \<rparr> \<rparr>)
     \<lparr> body = [BlockP (new_paragraph ''Hello'')], sections = [], styles = [] \<rparr>
   = Inl AttributeError
   \<and> (\<exists>doc1 p_title.
        insert_toc_title
          (ReportConfig_default \<lparr> toc := TocConfig_default \<lparr> insert_toc := JBool True \<rparr> \<rparr>)
          \<lparr> body = [BlockP (new_paragraph ''Hello'')], sections = [], styles = [] \<rparr>
          = Inr (doc1, p_title)
        \<and> body doc1 = [BlockP p_title, BlockP (new_paragraph ''Hello'')])"
proof -
  let ?cfg = "ReportConfig_default \<lparr> toc := TocConfig_default \<lparr> insert_toc := JBool True \<rparr> \<rparr>"
  have h: "truthy (insert_toc (toc ?cfg))"
    "TocConfig.title (toc ?cfg) = JStr [CHR ''M'', CHR 0xE1, CHR 0xBB, CHR 0xA4, CHR ''C'', CHR '' '',
                   CHR ''L'', CHR 0xE1, CHR 0xBB, CHR 0xA4, CHR ''C'']"
    "title_alignment (toc ?cfg) = JStr ''CENTER''"
    "is_number (title_font_size_pt (toc ?cfg))"
    by (simp_all add: TocConfig_default_def is_number_def)
  from insert_toc_raises [OF h,
      of "\<lambda>x. case x of JStr s \<Rightarrow> s | _ \<Rightarrow> []"
         "\<lparr> body = [BlockP (new_paragraph ''Hello'')], sections = [], styles = [] \<rparr>"]
  show ?thesis by simp
qed

end
